theory Spec2Isabelle
  imports Complex_Main
begin

section \<open>The bitcrusher worklet (public/worklets/bitcrusher.js)\<close>

subsection \<open>Numbers, samples and buffers\<close>

text \<open>
  A JavaScript number is taken as an exact real number. The one non-finite value the
  processor can produce from finite data is NaN: reading a \<^verbatim>\<open>Float32Array\<close> past
  its end gives \<^verbatim>\<open>undefined\<close>, and every arithmetic operation, \<^verbatim>\<open>Math.floor\<close>,
  \<^verbatim>\<open>Math.min\<close> and \<^verbatim>\<open>Math.max\<close> on \<^verbatim>\<open>undefined\<close> or NaN return NaN. A sample is
  therefore a \<open>real option\<close>, with \<open>None\<close> for NaN. Rounding to binary floating point
  and the infinities are outside the model.
\<close>

type_synonym sample = "real option"

text \<open>A channel is a \<^verbatim>\<open>Float32Array\<close> of frames; an input is an array of channels.\<close>

type_synonym channel = "sample list"

text \<open>\<^verbatim>\<open>inputChannel[i]\<close>: the frame when \<open>i\<close> is in range, \<^verbatim>\<open>undefined\<close> otherwise.\<close>

definition read_frame :: "channel \<Rightarrow> nat \<Rightarrow> sample" where
  "read_frame inputChannel i = (if i < length inputChannel then inputChannel ! i else None)"

text \<open>
  \<^verbatim>\<open>input[channel]\<close>: an entry of the array of channels may itself be missing, and an
  index past the end of the array reads \<^verbatim>\<open>undefined\<close>.
\<close>

definition read_channel :: "channel option list \<Rightarrow> nat \<Rightarrow> channel option" where
  "read_channel input c = (if c < length input then input ! c else None)"

subsection \<open>Parameters and state\<close>

text \<open>
  The three k-rate parameters, as \<^verbatim>\<open>parameters.bitDepth[0]\<close>,
  \<^verbatim>\<open>parameters.reduction[0]\<close> and \<^verbatim>\<open>parameters.mix[0]\<close> deliver them.
\<close>

record parameters =
  param_bitDepth :: real
  param_reduction :: real
  param_mix :: real

text \<open>The two fields the constructor initialises: one pair for the whole processor.\<close>

record processor =
  lastSample :: sample
  sampleCounter :: int

definition constructor :: processor where
  "constructor = \<lparr>lastSample = Some 0, sampleCounter = 0\<rparr>"

subsection \<open>One frame\<close>

text \<open>\<^verbatim>\<open>Math.floor((x + 1) / step) * step - 1\<close>\<close>

definition quantize :: "real \<Rightarrow> sample \<Rightarrow> sample" where
  "quantize step x = map_option (\<lambda>v. of_int \<lfloor>(v + 1) / step\<rfloor> * step - 1) x"

text \<open>\<^verbatim>\<open>Math.max(-1, Math.min(1, s))\<close>\<close>

definition clamp_sample :: "sample \<Rightarrow> sample" where
  "clamp_sample s = map_option (\<lambda>v. max (- 1) (min 1 v)) s"

text \<open>\<^verbatim>\<open>x * (1 - mix) + lastSample * mix\<close>\<close>

definition mix_dry_wet :: "real \<Rightarrow> sample \<Rightarrow> sample \<Rightarrow> sample" where
  "mix_dry_wet m x held =
     (case x of
        None \<Rightarrow> None
      | Some v \<Rightarrow> (case held of None \<Rightarrow> None | Some w \<Rightarrow> Some (v * (1 - m) + w * m)))"

text \<open>
  The body of the inner loop for one frame \<open>x = inputChannel[i]\<close>: the new state and the
  value stored in \<^verbatim>\<open>outputChannel[i]\<close>.
\<close>

definition process_frame :: "real \<Rightarrow> int \<Rightarrow> real \<Rightarrow> processor \<Rightarrow> sample \<Rightarrow> processor \<times> sample" where
  "process_frame step red m st x =
     (let st1 = st\<lparr>sampleCounter := sampleCounter st + 1\<rparr>;
          st2 = (if sampleCounter st1 \<ge> red
                 then st1\<lparr>sampleCounter := 0, lastSample := clamp_sample (quantize step x)\<rparr>
                 else st1)
      in (st2, mix_dry_wet m x (lastSample st2)))"

subsection \<open>The loops\<close>

text \<open>The inner loop, over the frames it reads in order.\<close>

fun process_frames :: "real \<Rightarrow> int \<Rightarrow> real \<Rightarrow> processor \<Rightarrow> sample list \<Rightarrow> processor \<times> sample list" where
  "process_frames step red m st [] = (st, [])"
| "process_frames step red m st (x # xs) =
     (case process_frame step red m st x of
        (st1, y) \<Rightarrow> (case process_frames step red m st1 xs of (st2, ys) \<Rightarrow> (st2, y # ys)))"

text \<open>
  \<^verbatim>\<open>for (let i = 0; i < outputChannel.length; i++)\<close>: frame \<open>i\<close> of the input channel is
  read for every index of the output channel, and every frame of the output channel is
  overwritten.
\<close>

definition process_channel :: "real \<Rightarrow> int \<Rightarrow> real \<Rightarrow> processor \<Rightarrow> channel \<Rightarrow> channel \<Rightarrow> processor \<times> channel" where
  "process_channel step red m st inputChannel outputChannel =
     process_frames step red m st (map (read_frame inputChannel) [0..<length outputChannel])"

text \<open>
  \<^verbatim>\<open>for (let channel = 0; channel < output.length; channel++)\<close>, from index \<open>c\<close> on. A
  channel with no input is skipped (\<^verbatim>\<open>continue\<close>): its output buffer is left as the
  host passed it, and the state is not touched.
\<close>

fun process_channels :: "real \<Rightarrow> int \<Rightarrow> real \<Rightarrow> processor \<Rightarrow> channel option list \<Rightarrow> nat \<Rightarrow> channel list \<Rightarrow> processor \<times> channel list" where
  "process_channels step red m st input c [] = (st, [])"
| "process_channels step red m st input c (outputChannel # rest) =
     (case read_channel input c of
        None \<Rightarrow>
          (case process_channels step red m st input (Suc c) rest of
             (st2, outs) \<Rightarrow> (st2, outputChannel # outs))
      | Some inputChannel \<Rightarrow>
          (case process_channel step red m st inputChannel outputChannel of
             (st1, out1) \<Rightarrow>
               (case process_channels step red m st1 input (Suc c) rest of
                  (st2, outs) \<Rightarrow> (st2, out1 # outs))))"

subsection \<open>process\<close>

text \<open>
  The only way the body can throw is a property read on \<^verbatim>\<open>undefined\<close>. The first
  input \<^verbatim>\<open>inputs[0]\<close> and the first output \<^verbatim>\<open>outputs[0]\<close> are options for that reason:
  \<open>None\<close> is \<^verbatim>\<open>undefined\<close>.
\<close>

datatype js_error = TypeError

definition levels_of :: "real \<Rightarrow> real" where
  "levels_of bitDepth = 2 powr bitDepth"

definition step_of :: "real \<Rightarrow> real" where
  "step_of bitDepth = 2 / levels_of bitDepth"

text \<open>
  The result is the state after the call and the output buffers after it. The source
  returns \<^verbatim>\<open>true\<close> on every path, which the model leaves out.
\<close>

definition process :: "processor \<Rightarrow> channel option list option \<Rightarrow> channel list option \<Rightarrow> parameters
    \<Rightarrow> js_error + (processor \<times> channel list option)" where
  "process st input output ps =
     (case input of
        None \<Rightarrow> Inr (st, output)
      | Some chans \<Rightarrow>
          if length chans = 0 then Inr (st, output)
          else
            (let bitDepth = param_bitDepth ps;
                 red = \<lfloor>param_reduction ps\<rfloor>;
                 m = param_mix ps;
                 levels = levels_of bitDepth;
                 step = 2 / levels
             in case output of
                  None \<Rightarrow> Inl TypeError
                | Some outs \<Rightarrow>
                    (case process_channels step red m st chans 0 outs of
                       (st2, outs2) \<Rightarrow> Inr (st2, Some outs2))))"


subsection \<open>The per-sample algorithm in the words of the specification\<close>

text \<open>
  The specification describes the processor over finite samples, with a state
  \<open>(counter, heldSample)\<close>. The three definitions below follow its wording, not the
  source; they are compared with the source's \<open>process\<close> further down.
\<close>

definition spec_clamp :: "real \<Rightarrow> real \<Rightarrow> real \<Rightarrow> real" where
  "spec_clamp v lo hi = max lo (min hi v)"

definition spec_sample :: "real \<Rightarrow> int \<Rightarrow> real \<Rightarrow> int \<times> real \<Rightarrow> real \<Rightarrow> (int \<times> real) \<times> real" where
  "spec_sample bitDepth reductionFactor mx s x =
     (let levels = 2 powr bitDepth;
          step = 2 / levels;
          counter = fst s + 1;
          recompute = (counter \<ge> reductionFactor);
          counter2 = (if recompute then 0 else counter);
          heldSample =
            (if recompute then spec_clamp (of_int \<lfloor>(x + 1) / step\<rfloor> * step - 1) (- 1) 1
             else snd s);
          y = x * (1 - mx) + heldSample * mx
      in ((counter2, heldSample), y))"

fun spec_block :: "real \<Rightarrow> int \<Rightarrow> real \<Rightarrow> int \<times> real \<Rightarrow> real list \<Rightarrow> (int \<times> real) \<times> real list" where
  "spec_block bitDepth reductionFactor mx s [] = (s, [])"
| "spec_block bitDepth reductionFactor mx s (x # xs) =
     (case spec_sample bitDepth reductionFactor mx s x of
        (s1, y) \<Rightarrow>
          (case spec_block bitDepth reductionFactor mx s1 xs of (s2, ys) \<Rightarrow> (s2, y # ys)))"

text \<open>The processor state that holds a given counter and a finite held sample.\<close>

definition state_of :: "int \<times> real \<Rightarrow> processor" where
  "state_of s = \<lparr>lastSample = Some (snd s), sampleCounter = fst s\<rparr>"

text \<open>A channel that is present and holds finite frames only.\<close>

definition finite_channel :: "real list \<Rightarrow> channel option" where
  "finite_channel xs = Some (map Some xs)"

subsection \<open>The quantization grid\<close>

text \<open>
  \<open>y\<close> is a grid point for \<open>levels\<close>: it is \<open>-1\<close> plus a whole number \<open>k\<close> of steps
  \<open>2 / levels\<close>, with \<open>0 \<le> k \<le> levels\<close>.
\<close>

definition on_grid :: "real \<Rightarrow> real \<Rightarrow> bool" where
  "on_grid levels y =
     (let k = (y + 1) / (2 / levels) in of_int \<lfloor>k\<rfloor> = k \<and> 0 \<le> k \<and> k \<le> levels)"

definition sample_on_grid :: "real \<Rightarrow> sample \<Rightarrow> bool" where
  "sample_on_grid levels y = (case y of None \<Rightarrow> False | Some v \<Rightarrow> on_grid levels v)"

subsection \<open>Changes of a held signal\<close>

text \<open>The signal \<open>ys\<close> changes at index \<open>i\<close>: frame \<open>i\<close> differs from the frame before it.\<close>

definition changes_at :: "'a list \<Rightarrow> nat \<Rightarrow> bool" where
  "changes_at ys i = (0 < i \<and> i < length ys \<and> ys ! i \<noteq> ys ! (i - 1))"

text \<open>A channel whose frames are all finite.\<close>

definition all_finite :: "channel \<Rightarrow> bool" where
  "all_finite c = list_all (\<lambda>x. x \<noteq> None) c"

subsection \<open>Missing input\<close>

text \<open>
  Channel \<open>c\<close> has no input: the whole input is absent, or it has no channel at index
  \<open>c\<close> (an empty input has none at all).
\<close>

definition missing_channel :: "channel option list option \<Rightarrow> nat \<Rightarrow> bool" where
  "missing_channel input c =
     (case input of None \<Rightarrow> True | Some chans \<Rightarrow> read_channel chans c = None)"

subsection \<open>Inputs of the scenarios\<close>

text \<open>A ramp from -1 to 1 over 8 samples, and the zero-filled buffer the host passes.\<close>

definition ramp8 :: "real list" where
  "ramp8 = [- 1, - 5 / 7, - 3 / 7, - 1 / 7, 1 / 7, 3 / 7, 5 / 7, 1]"

text \<open>The ramp of 8 samples that starts at -1 and stops one step short of 1.\<close>

definition ramp8_open :: "real list" where
  "ramp8_open = [- 1, - 3 / 4, - 1 / 2, - 1 / 4, 0, 1 / 4, 1 / 2, 3 / 4]"

definition silent :: "nat \<Rightarrow> channel" where
  "silent n = replicate n (Some 0)"

section \<open>The audio engine (AudioEngine)\<close>

subsection \<open>The Web Audio objects the engine holds\<close>

text \<open>
  An \<^verbatim>\<open>AudioParam\<close>: the value its \<^verbatim>\<open>value\<close> getter returns now, and its timeline of
  automation events in time order. The engine uses three of its methods.
\<close>

datatype automation_event =
  SetValueAtTime real real
  | LinearRampToValueAtTime real real

fun event_time :: "automation_event \<Rightarrow> real" where
  "event_time (SetValueAtTime v t) = t"
| "event_time (LinearRampToValueAtTime v t) = t"

record audio_param =
  current_value :: real
  events :: "automation_event list"

text \<open>\<^verbatim>\<open>cancelScheduledValues(t)\<close> removes every event at or after \<open>t\<close>.\<close>

definition cancelScheduledValues :: "real \<Rightarrow> audio_param \<Rightarrow> audio_param" where
  "cancelScheduledValues t p = p\<lparr>events := filter (\<lambda>e. event_time e < t) (events p)\<rparr>"

text \<open>A new event goes into the timeline after the events that are not later than it.\<close>

definition schedule :: "automation_event \<Rightarrow> audio_param \<Rightarrow> audio_param" where
  "schedule e p =
     p\<lparr>events := filter (\<lambda>x. event_time x \<le> event_time e) (events p) @ [e] @
                  filter (\<lambda>x. event_time e < event_time x) (events p)\<rparr>"

definition setValueAtTime :: "real \<Rightarrow> real \<Rightarrow> audio_param \<Rightarrow> audio_param" where
  "setValueAtTime v t p = schedule (SetValueAtTime v t) p"

definition linearRampToValueAtTime :: "real \<Rightarrow> real \<Rightarrow> audio_param \<Rightarrow> audio_param" where
  "linearRampToValueAtTime v t p = schedule (LinearRampToValueAtTime v t) p"

text \<open>
  A decoded sample, and the bytes and name of a dropped file. Reading the bytes of the
  file (\<^verbatim>\<open>file.arrayBuffer()\<close>) does not fail.
\<close>

type_synonym audio_buffer = "real list list"

record dropped_file =
  file_name :: string
  file_bytes :: "nat list"

datatype context_state = Suspended | Running

text \<open>
  The \<^verbatim>\<open>AudioContext\<close>: its state, its clock, and the buffer sources that were
  created, connected to the bitcrusher and started on it (the playing voices), oldest
  first.
\<close>

record audio_context =
  ctx_state :: context_state
  currentTime :: real
  started_sources :: "audio_buffer list"

text \<open>
  The \<^verbatim>\<open>AudioWorkletNode\<close> of the bitcrusher: \<^verbatim>\<open>parameters.get(name)\<close> is a lookup
  that may find nothing. A fresh node has the three parameters of
  \<^verbatim>\<open>parameterDescriptors\<close> at their default values.
\<close>

record worklet_node =
  node_parameters :: "string \<rightharpoonup> audio_param"

definition new_worklet_node :: worklet_node where
  "new_worklet_node =
     \<lparr>node_parameters =
        [''bitDepth'' \<mapsto> \<lparr>current_value = 12, events = []\<rparr>,
         ''reduction'' \<mapsto> \<lparr>current_value = 1, events = []\<rparr>,
         ''mix'' \<mapsto> \<lparr>current_value = 1, events = []\<rparr>]\<rparr>"

record gain_node =
  gain :: audio_param

definition createGain :: gain_node where
  "createGain = \<lparr>gain = \<lparr>current_value = 1, events = []\<rparr>\<rparr>"

subsection \<open>The host\<close>

text \<open>
  What the browser answers to the calls that can fail: whether \<^verbatim>\<open>new AudioContext()\<close>
  succeeds and what context it gives, whether \<^verbatim>\<open>audioWorklet.addModule\<close> resolves,
  whether \<^verbatim>\<open>new AudioWorkletNode\<close> succeeds, and what \<^verbatim>\<open>decodeAudioData\<close> makes of
  some bytes (\<open>None\<close>: it rejects). Of the other calls of \<open>init\<close>, \<^verbatim>\<open>createGain\<close>
  and \<^verbatim>\<open>connect\<close> do not fail; the assignment to \<^verbatim>\<open>gain.value\<close> and the scheduling of
  a ramp throw on a number the parameter does not accept, whatever the host. The
  connections of the graph are not part of the state.
\<close>

record host =
  context_starts :: bool
  new_context :: audio_context
  module_loads :: bool
  node_constructs :: bool
  decodeAudioData :: "nat list \<Rightarrow> audio_buffer option"

datatype engine_error =
  ContextUnavailable
  | ModuleLoadFailed
  | NodeConstructionFailed
  | ParamTypeError
  | NotInitialized
  | DecodeFailed

text \<open>How a call ends: it returns (its promise resolves) or it throws (rejects).\<close>

datatype completion = Returned | Threw engine_error

subsection \<open>The engine\<close>

record AudioEngineState =
  masterVolume :: real
  bitDepth :: real
  reduction :: real
  mix :: real

text \<open>
  \<^verbatim>\<open>Partial<AudioEngineState>\<close>: a field is named, with a number (\<open>Some\<close>), or
  absent.
\<close>

record partial_state =
  new_masterVolume :: "real option"
  new_bitDepth :: "real option"
  new_reduction :: "real option"
  new_mix :: "real option"

text \<open>
  A subscriber is known by a number; \<open>delivered\<close> lists the snapshots the callbacks
  were called with, oldest first.
\<close>

record engine =
  ctx :: "audio_context option"
  masterGain :: "gain_node option"
  bitcrusherNode :: "worklet_node option"
  samples :: "int \<rightharpoonup> audio_buffer"
  isInitialized :: bool
  stateSubscribers :: "nat list"
  state :: AudioEngineState
  delivered :: "(nat \<times> AudioEngineState) list"

definition new_engine :: engine where
  "new_engine =
     \<lparr>ctx = None, masterGain = None, bitcrusherNode = None, samples = Map.empty,
      isInitialized = False, stateSubscribers = [],
      state = \<lparr>masterVolume = 4 / 5, bitDepth = 12, reduction = 1, mix = 1\<rparr>,
      delivered = []\<rparr>"

text \<open>
  An \<^verbatim>\<open>AudioParam\<close> takes its values as restricted floats: the number is rounded to
  the nearest 32-bit float, and a \<^verbatim>\<open>TypeError\<close> is thrown when that leaves the finite
  range, which is so from \<open>2 ^ 128 - 2 ^ 103\<close> on in magnitude. The non-finite numbers,
  rejected as well, are outside the number model.
\<close>

definition float_bound :: real where
  "float_bound = 2 ^ 128 - 2 ^ 103"

definition accepts :: "real \<Rightarrow> bool" where
  "accepts v = (\<bar>v\<bar> < float_bound)"

text \<open>
  The three calls \<open>applyState\<close> makes on each parameter: cancel from now on, pin the
  present value now, ramp to the target 20 ms later. The first two do not throw (the
  present value is a float already); the third throws on a target that is not accepted,
  and then the first two have taken place.
\<close>

definition smoothTime :: real where
  "smoothTime = 2 / 100"

definition ramp_to :: "real \<Rightarrow> real \<Rightarrow> audio_param \<Rightarrow> completion \<times> audio_param" where
  "ramp_to target now p =
     (let p2 = setValueAtTime (current_value p) now (cancelScheduledValues now p)
      in if accepts target
         then (Returned, linearRampToValueAtTime target (now + smoothTime) p2)
         else (Threw ParamTypeError, p2))"

text \<open>\<^verbatim>\<open>if (param) { ... }\<close> on the parameter of that name.\<close>

definition ramp_node_param :: "string \<Rightarrow> real \<Rightarrow> real \<Rightarrow> worklet_node \<Rightarrow> completion \<times> worklet_node" where
  "ramp_node_param name target now node =
     (case node_parameters node name of
        None \<Rightarrow> (Returned, node)
      | Some p \<Rightarrow>
          (case ramp_to target now p of
             (r, p2) \<Rightarrow> (r, node\<lparr>node_parameters := (node_parameters node)(name \<mapsto> p2)\<rparr>)))"

text \<open>Statements in sequence: the next one runs only when the one before returned.\<close>

definition and_then :: "completion \<times> 'a \<Rightarrow> ('a \<Rightarrow> completion \<times> 'a) \<Rightarrow> completion \<times> 'a" where
  "and_then r f = (case r of (Returned, x) \<Rightarrow> f x | (Threw err, x) \<Rightarrow> (Threw err, x))"

text \<open>The three parameters of the node, in the order of the source.\<close>

definition ramp_node :: "AudioEngineState \<Rightarrow> real \<Rightarrow> worklet_node \<Rightarrow> completion \<times> worklet_node" where
  "ramp_node s now node =
     and_then
       (and_then (ramp_node_param ''bitDepth'' (bitDepth s) now node)
          (ramp_node_param ''reduction'' (reduction s) now))
       (ramp_node_param ''mix'' (mix s) now)"

text \<open>
  \<open>applyState\<close>: the master gain first, then \<open>bitDepth\<close>, \<open>reduction\<close> and \<open>mix\<close>. A
  throw leaves the parameters before it ramped and the ones after it untouched.
\<close>

definition applyState :: "engine \<Rightarrow> completion \<times> engine" where
  "applyState e =
     (case ctx e of
        None \<Rightarrow> (Returned, e)
      | Some c \<Rightarrow>
          (case bitcrusherNode e of
             None \<Rightarrow> (Returned, e)
           | Some node \<Rightarrow>
               (case masterGain e of
                  None \<Rightarrow> (Returned, e)
                | Some g \<Rightarrow>
                    (let now = currentTime c in
                     case ramp_to (masterVolume (state e)) now (gain g) of
                       (r, gp) \<Rightarrow>
                         (let e1 = e\<lparr>masterGain := Some (g\<lparr>gain := gp\<rparr>)\<rparr> in
                          case r of
                            Threw err \<Rightarrow> (Threw err, e1)
                          | Returned \<Rightarrow>
                              (case ramp_node (state e) now node of
                                 (r2, node2) \<Rightarrow> (r2, e1\<lparr>bitcrusherNode := Some node2\<rparr>)))))))"

text \<open>\<open>resume\<close>: the host grants \<^verbatim>\<open>ctx.resume()\<close> on a suspended context.\<close>

definition resume :: "engine \<Rightarrow> engine" where
  "resume e =
     (case ctx e of
        None \<Rightarrow> e
      | Some c \<Rightarrow>
          if ctx_state c = Suspended then e\<lparr>ctx := Some (c\<lparr>ctx_state := Running\<rparr>)\<rparr> else e)"

text \<open>
  \<open>init\<close>: the statements of the \<^verbatim>\<open>try\<close> block in order. A statement that throws
  leaves the assignments before it in place, and the \<^verbatim>\<open>catch\<close> rethrows. After the
  three calls the host can refuse, the assignment to \<^verbatim>\<open>gain.value\<close> throws on a master
  volume that is not accepted, and \<open>applyState\<close> throws as described; in both cases the
  context and the nodes stay and \<open>isInitialized\<close> stays false.
\<close>

definition init :: "host \<Rightarrow> engine \<Rightarrow> completion \<times> engine" where
  "init h e =
     (if isInitialized e then (Returned, resume e)
      else if \<not> context_starts h then (Threw ContextUnavailable, e)
      else
        (let e1 = e\<lparr>ctx := Some (new_context h)\<rparr> in
         if \<not> module_loads h then (Threw ModuleLoadFailed, e1)
         else if \<not> node_constructs h then (Threw NodeConstructionFailed, e1)
         else
           (let e2 = e1\<lparr>bitcrusherNode := Some new_worklet_node\<rparr>;
                e3 = e2\<lparr>masterGain := Some createGain\<rparr>
            in if \<not> accepts (masterVolume (state e3)) then (Threw ParamTypeError, e3)
               else
                 (let e4 = e3\<lparr>masterGain :=
                             Some (createGain\<lparr>gain := (gain createGain)
                                     \<lparr>current_value := masterVolume (state e3)\<rparr>\<rparr>)\<rparr>
                  in case applyState e4 of
                       (Returned, e5) \<Rightarrow> (Returned, e5\<lparr>isInitialized := True\<rparr>)
                     | (Threw err, e5) \<Rightarrow> (Threw err, e5)))))"

text \<open>The engine \<open>init\<close> hands to \<open>applyState\<close> when nothing has thrown before.\<close>

definition wired :: "host \<Rightarrow> engine \<Rightarrow> engine" where
  "wired h e =
     e\<lparr>ctx := Some (new_context h), bitcrusherNode := Some new_worklet_node,
       masterGain := Some (createGain\<lparr>gain := (gain createGain)
                       \<lparr>current_value := masterVolume (state e)\<rparr>\<rparr>)\<rparr>"

definition loadSample :: "host \<Rightarrow> engine \<Rightarrow> int \<Rightarrow> dropped_file \<Rightarrow> completion \<times> engine" where
  "loadSample h e padIndex f =
     (case ctx e of
        None \<Rightarrow> (Threw NotInitialized, e)
      | Some c \<Rightarrow>
          (case decodeAudioData h (file_bytes f) of
             None \<Rightarrow> (Threw DecodeFailed, e)
           | Some audioBuffer \<Rightarrow> (Returned, e\<lparr>samples := (samples e)(padIndex \<mapsto> audioBuffer)\<rparr>)))"

definition triggerPad :: "engine \<Rightarrow> int \<Rightarrow> engine" where
  "triggerPad e padIndex =
     (case ctx e of
        None \<Rightarrow> e
      | Some c \<Rightarrow>
          (case bitcrusherNode e of
             None \<Rightarrow> e
           | Some node \<Rightarrow>
               (case samples e padIndex of
                  None \<Rightarrow> e
                | Some buffer \<Rightarrow>
                    e\<lparr>ctx := Some (c\<lparr>started_sources := started_sources c @ [buffer]\<rparr>)\<rparr>)))"

definition getState :: "engine \<Rightarrow> AudioEngineState" where
  "getState e = state e"

definition notifySubscribers :: "engine \<Rightarrow> engine" where
  "notifySubscribers e =
     e\<lparr>delivered := delivered e @ map (\<lambda>cb. (cb, getState e)) (stateSubscribers e)\<rparr>"

text \<open>\<^verbatim>\<open>{ ...this.state, ...newState }\<close>: a field the argument names wins.\<close>

definition spread :: "AudioEngineState \<Rightarrow> partial_state \<Rightarrow> AudioEngineState" where
  "spread old newState =
     \<lparr>masterVolume = (case new_masterVolume newState of None \<Rightarrow> masterVolume old | Some v \<Rightarrow> v),
      bitDepth = (case new_bitDepth newState of None \<Rightarrow> bitDepth old | Some v \<Rightarrow> v),
      reduction = (case new_reduction newState of None \<Rightarrow> reduction old | Some v \<Rightarrow> v),
      mix = (case new_mix newState of None \<Rightarrow> mix old | Some v \<Rightarrow> v)\<rparr>"

text \<open>
  \<open>setState\<close>: when \<open>applyState\<close> throws, the caller gets the error and the
  subscribers are not notified; the new state is stored by then. What a callback does
  is not modelled.
\<close>

definition setState :: "engine \<Rightarrow> partial_state \<Rightarrow> completion \<times> engine" where
  "setState e newState =
     (case applyState (e\<lparr>state := spread (state e) newState\<rparr>) of
        (Returned, e2) \<Rightarrow> (Returned, notifySubscribers e2)
      | (Threw err, e2) \<Rightarrow> (Threw err, e2))"

definition subscribe :: "engine \<Rightarrow> nat \<Rightarrow> engine" where
  "subscribe e callback = e\<lparr>stateSubscribers := stateSubscribers e @ [callback]\<rparr>"

definition unsubscribe :: "engine \<Rightarrow> nat \<Rightarrow> engine" where
  "unsubscribe e callback =
     e\<lparr>stateSubscribers := filter (\<lambda>cb. cb \<noteq> callback) (stateSubscribers e)\<rparr>"

definition hasSample :: "engine \<Rightarrow> int \<Rightarrow> bool" where
  "hasSample e padIndex = (samples e padIndex \<noteq> None)"

definition initialized :: "engine \<Rightarrow> bool" where
  "initialized e = isInitialized e"

subsection \<open>What the host does on its own\<close>

text \<open>
  The browser may suspend the context, its clock moves, and the automation moves the
  present value of every parameter.
\<close>

definition host_suspends :: "engine \<Rightarrow> engine" where
  "host_suspends e =
     (case ctx e of None \<Rightarrow> e | Some c \<Rightarrow> e\<lparr>ctx := Some (c\<lparr>ctx_state := Suspended\<rparr>)\<rparr>)"

definition clock_advances :: "real \<Rightarrow> engine \<Rightarrow> engine" where
  "clock_advances t e =
     (case ctx e of None \<Rightarrow> e | Some c \<Rightarrow> e\<lparr>ctx := Some (c\<lparr>currentTime := t\<rparr>)\<rparr>)"

definition parameters_move :: "real \<Rightarrow> (string \<Rightarrow> real) \<Rightarrow> engine \<Rightarrow> engine" where
  "parameters_move gv nv e =
     e\<lparr>masterGain := map_option (\<lambda>g. g\<lparr>gain := (gain g)\<lparr>current_value := gv\<rparr>\<rparr>) (masterGain e),
       bitcrusherNode :=
         map_option
           (\<lambda>node. node\<lparr>node_parameters :=
              (\<lambda>name. map_option (\<lambda>p. p\<lparr>current_value := nv name\<rparr>)
                 (node_parameters node name))\<rparr>)
           (bitcrusherNode e)\<rparr>"

text \<open>The values an \<^verbatim>\<open>AudioParam\<close> accepts, for a stored state and for an update.\<close>

definition accepted_state :: "AudioEngineState \<Rightarrow> bool" where
  "accepted_state s =
     (accepts (masterVolume s) \<and> accepts (bitDepth s) \<and> accepts (reduction s) \<and> accepts (mix s))"

definition accepted_opt :: "real option \<Rightarrow> bool" where
  "accepted_opt v = (case v of None \<Rightarrow> True | Some x \<Rightarrow> accepts x)"

definition accepted_update :: "partial_state \<Rightarrow> bool" where
  "accepted_update n =
     (accepted_opt (new_masterVolume n) \<and> accepted_opt (new_bitDepth n) \<and>
      accepted_opt (new_reduction n) \<and> accepted_opt (new_mix n))"

text \<open>
  The engines that calls of the methods and the three steps of the host lead to, from
  the engine the module creates, when every update passed to \<open>setState\<close> satisfies
  \<open>ok\<close>. A call that throws leads to the engine it leaves behind.
\<close>

inductive reachable_by :: "(partial_state \<Rightarrow> bool) \<Rightarrow> engine \<Rightarrow> bool"
  for ok :: "partial_state \<Rightarrow> bool" where
  reachable_new: "reachable_by ok new_engine"
| reachable_init: "reachable_by ok e \<Longrightarrow> reachable_by ok (snd (init h e))"
| reachable_loadSample: "reachable_by ok e \<Longrightarrow> reachable_by ok (snd (loadSample h e padIndex f))"
| reachable_triggerPad: "reachable_by ok e \<Longrightarrow> reachable_by ok (triggerPad e padIndex)"
| reachable_setState:
    "reachable_by ok e \<Longrightarrow> ok newState \<Longrightarrow> reachable_by ok (snd (setState e newState))"
| reachable_subscribe: "reachable_by ok e \<Longrightarrow> reachable_by ok (subscribe e callback)"
| reachable_unsubscribe: "reachable_by ok e \<Longrightarrow> reachable_by ok (unsubscribe e callback)"
| reachable_suspends: "reachable_by ok e \<Longrightarrow> reachable_by ok (host_suspends e)"
| reachable_clock: "reachable_by ok e \<Longrightarrow> reachable_by ok (clock_advances t e)"
| reachable_move: "reachable_by ok e \<Longrightarrow> reachable_by ok (parameters_move gv nv e)"

text \<open>Every engine the program can be in, and those it is in while all updates are accepted.\<close>

definition reachable :: "engine \<Rightarrow> bool" where
  "reachable e = reachable_by (\<lambda>newState. True) e"

definition reachable_accepted :: "engine \<Rightarrow> bool" where
  "reachable_accepted e = reachable_by accepted_update e"

subsection \<open>Observations on the engine\<close>

text \<open>The valid ranges of the four parameters, for a stored state and for an update.\<close>

definition in_ranges :: "AudioEngineState \<Rightarrow> bool" where
  "in_ranges s =
     (0 \<le> masterVolume s \<and> masterVolume s \<le> 1 \<and> 1 \<le> bitDepth s \<and> bitDepth s \<le> 16 \<and>
      1 \<le> reduction s \<and> reduction s \<le> 32 \<and> 0 \<le> mix s \<and> mix s \<le> 1)"

definition in_range :: "real \<Rightarrow> real \<Rightarrow> real option \<Rightarrow> bool" where
  "in_range lo hi v = (case v of None \<Rightarrow> True | Some x \<Rightarrow> lo \<le> x \<and> x \<le> hi)"

definition partial_in_ranges :: "partial_state \<Rightarrow> bool" where
  "partial_in_ranges n =
     (in_range 0 1 (new_masterVolume n) \<and> in_range 1 16 (new_bitDepth n) \<and>
      in_range 1 32 (new_reduction n) \<and> in_range 0 1 (new_mix n))"

text \<open>
  The target a parameter is ramping to: the value of the linear ramp that ends its
  timeline, if it ends with one.
\<close>

definition ramp_target :: "audio_param \<Rightarrow> real option" where
  "ramp_target p =
     (case rev (events p) of
        LinearRampToValueAtTime v t # earlier \<Rightarrow> Some v
      | _ \<Rightarrow> None)"

definition gain_ramp_target :: "engine \<Rightarrow> real option" where
  "gain_ramp_target e = (case masterGain e of None \<Rightarrow> None | Some g \<Rightarrow> ramp_target (gain g))"

definition node_ramp_target :: "engine \<Rightarrow> string \<Rightarrow> real option" where
  "node_ramp_target e name =
     (case bitcrusherNode e of
        None \<Rightarrow> None
      | Some node \<Rightarrow>
          (case node_parameters node name of None \<Rightarrow> None | Some p \<Rightarrow> ramp_target p))"

text \<open>
  The states of the specification's state machine, read off the fields of the engine:
  not initialized; initialized with a suspended context; initialized and running.
\<close>

datatype engine_phase = PhaseUninitialized | PhaseReady | PhaseSuspended

definition phase :: "engine \<Rightarrow> engine_phase" where
  "phase e =
     (if \<not> isInitialized e then PhaseUninitialized
      else
        (case ctx e of
           None \<Rightarrow> PhaseUninitialized
         | Some c \<Rightarrow> if ctx_state c = Suspended then PhaseSuspended else PhaseReady))"

text \<open>
  The graph is complete: the engine has its context, its gain node and its bitcrusher
  node with the three parameters. This holds of every initialized reachable engine.
\<close>

definition graph_complete :: "engine \<Rightarrow> bool" where
  "graph_complete e =
     (ctx e \<noteq> None \<and> masterGain e \<noteq> None \<and>
      (case bitcrusherNode e of
         None \<Rightarrow> False
       | Some node \<Rightarrow>
           node_parameters node ''bitDepth'' \<noteq> None \<and>
           node_parameters node ''reduction'' \<noteq> None \<and>
           node_parameters node ''mix'' \<noteq> None))"

definition complete_if_initialized :: "engine \<Rightarrow> bool" where
  "complete_if_initialized e = (if isInitialized e then graph_complete e else True)"

text \<open>The parameter of that name exists and ramps to \<open>v\<close>.\<close>

definition has_target :: "worklet_node \<Rightarrow> string \<Rightarrow> real \<Rightarrow> bool" where
  "has_target node name v =
     (case node_parameters node name of None \<Rightarrow> False | Some p \<Rightarrow> ramp_target p = Some v)"

text \<open>
  What holds of the graph while all updates are accepted: the stored values are
  accepted; an initialized engine has a complete graph, and each of the four parameters
  ramps to the stored value; an engine that is not initialized has neither node.
\<close>

definition graph_inv :: "engine \<Rightarrow> bool" where
  "graph_inv e =
     (accepted_state (state e) \<and>
      (if isInitialized e
       then graph_complete e \<and>
         gain_ramp_target e = Some (masterVolume (state e)) \<and>
         node_ramp_target e ''bitDepth'' = Some (bitDepth (state e)) \<and>
         node_ramp_target e ''reduction'' = Some (reduction (state e)) \<and>
         node_ramp_target e ''mix'' = Some (mix (state e))
       else masterGain e = None \<and> bitcrusherNode e = None))"

subsection \<open>A host, files and engines for the scenarios\<close>

text \<open>
  A decoder that rejects the empty file, a host on which everything succeeds and whose
  context starts suspended, three files, the updates that name \<open>bitDepth\<close> only and
  \<open>masterVolume\<close> only, the engine initialized on that host, and that engine with a
  sample on pad 0.
\<close>

definition toy_decoder :: "nat list \<Rightarrow> audio_buffer option" where
  "toy_decoder bs = (if bs = [] then None else Some [map real bs])"

definition suspended_host :: host where
  "suspended_host =
     \<lparr>context_starts = True,
      new_context = \<lparr>ctx_state = Suspended, currentTime = 0, started_sources = []\<rparr>,
      module_loads = True, node_constructs = True, decodeAudioData = toy_decoder\<rparr>"

definition kick :: dropped_file where
  "kick = \<lparr>file_name = ''kick.wav'', file_bytes = [1, 2]\<rparr>"

definition snare :: dropped_file where
  "snare = \<lparr>file_name = ''snare.wav'', file_bytes = [3]\<rparr>"

definition garbage :: dropped_file where
  "garbage = \<lparr>file_name = ''notes.txt'', file_bytes = []\<rparr>"

definition just_bitDepth :: "real \<Rightarrow> partial_state" where
  "just_bitDepth v =
     \<lparr>new_masterVolume = None, new_bitDepth = Some v, new_reduction = None, new_mix = None\<rparr>"

definition just_masterVolume :: "real \<Rightarrow> partial_state" where
  "just_masterVolume v =
     \<lparr>new_masterVolume = Some v, new_bitDepth = None, new_reduction = None, new_mix = None\<rparr>"

definition suspended_engine :: engine where
  "suspended_engine = snd (init suspended_host new_engine)"

definition loaded_engine :: engine where
  "loaded_engine = snd (loadSample suspended_host suspended_engine 0 kick)"

text \<open>
  A master volume no \<^verbatim>\<open>AudioParam\<close> accepts; the engine that stored it before \<open>init\<close>
  was called, on which \<open>init\<close> then threw at the assignment to \<^verbatim>\<open>gain.value\<close>; and
  that engine with a sample on pad 0.
\<close>

definition too_large :: real where
  "too_large = 2 ^ 128"

definition stalled_engine :: engine where
  "stalled_engine =
     snd (init suspended_host (snd (setState new_engine (just_masterVolume too_large))))"

definition stalled_loaded_engine :: engine where
  "stalled_loaded_engine = snd (loadSample suspended_host stalled_engine 0 kick)"

section \<open>Properties of the worklet\<close>

subsection \<open>The source follows the specified per-sample algorithm\<close>

lemma process_frame_spec:
  "process_frame (2 / levels_of b) r m (state_of s) (Some x) =
     (state_of (fst (spec_sample b r m s x)), Some (snd (spec_sample b r m s x)))"
  by (simp add: process_frame_def spec_sample_def state_of_def Let_def quantize_def
      clamp_sample_def mix_dry_wet_def spec_clamp_def levels_of_def)

lemma process_frames_spec:
  "process_frames (2 / levels_of b) r m (state_of s) (map Some xs) =
     (state_of (fst (spec_block b r m s xs)), map Some (snd (spec_block b r m s xs)))"
proof (induction xs arbitrary: s)
  case Nil
  show ?case by simp
next
  case (Cons x xs)
  show ?case
    by (simp add: process_frame_spec Cons.IH case_prod_beta)
qed

lemma read_all_frames: "map (read_frame xs) [0..<length xs] = xs"
  by (rule nth_equalityI) (simp_all add: read_frame_def)

lemma process_channel_spec:
  "length out = length xs \<Longrightarrow>
   process_channel (2 / levels_of b) r m (state_of s) (map Some xs) out =
     (state_of (fst (spec_block b r m s xs)), map Some (snd (spec_block b r m s xs)))"
  using read_all_frames [of "map Some xs"]
  by (simp add: process_channel_def process_frames_spec)

lemma spec_block_append:
  "spec_block b r m s (xs @ ys) =
     (fst (spec_block b r m (fst (spec_block b r m s xs)) ys),
      snd (spec_block b r m s xs) @ snd (spec_block b r m (fst (spec_block b r m s xs)) ys))"
  by (induction xs arbitrary: s) (simp_all add: case_prod_beta)

lemma length_spec_block: "length (snd (spec_block b r m s xs)) = length xs"
  by (induction xs arbitrary: s) (simp_all add: case_prod_beta)

lemma read_channel_at: "read_channel (pre @ x # post) (length pre) = x"
  by (simp add: read_channel_def)

lemma process_channels_spec:
  "map length outs = map length xss \<Longrightarrow>
   process_channels (2 / levels_of b) r m (state_of s) (pre @ map finite_channel xss)
     (length pre) outs = (st2, outs2) \<Longrightarrow>
   st2 = state_of (fst (spec_block b r m s (concat xss))) \<and>
   concat outs2 = map Some (snd (spec_block b r m s (concat xss))) \<and>
   map length outs2 = map length xss"
proof (induction xss arbitrary: outs pre s st2 outs2)
  case Nil
  then show ?case by simp
next
  case (Cons xs xss)
  from Cons.prems(1) obtain out rest where outs: "outs = out # rest"
    and len: "length out = length xs" and lens: "map length rest = map length xss"
    by (cases outs) auto
  let ?s1 = "fst (spec_block b r m s xs)"
  let ?pre1 = "pre @ [finite_channel xs]"
  obtain st3 outs3 where rec:
    "process_channels (2 / levels_of b) r m (state_of ?s1)
       (?pre1 @ map finite_channel xss) (length ?pre1) rest = (st3, outs3)"
    by (cases "process_channels (2 / levels_of b) r m (state_of ?s1)
       (?pre1 @ map finite_channel xss) (length ?pre1) rest")
  from Cons.IH [OF lens rec]
  have ih: "st3 = state_of (fst (spec_block b r m ?s1 (concat xss)))"
    "concat outs3 = map Some (snd (spec_block b r m ?s1 (concat xss)))"
    "map length outs3 = map length xss"
    by simp_all
  have rd: "read_channel (pre @ finite_channel xs # map finite_channel xss) (length pre)
      = finite_channel xs"
    by (rule read_channel_at)
  from Cons.prems(2) rec
  have res: "st2 = st3" "outs2 = map Some (snd (spec_block b r m s xs)) # outs3"
    using rd process_channel_spec [OF len, of b r m s]
    by (simp_all add: outs finite_channel_def [of xs])
  show ?case
    by (simp add: res ih spec_block_append length_spec_block)
qed

lemma process_on_finite_channels:
  assumes "map length outs = map length xss" and "xss \<noteq> []"
  shows "\<exists>outs2.
     process (state_of s) (Some (map finite_channel xss)) (Some outs) ps =
       Inr (state_of (fst (spec_block (param_bitDepth ps) \<lfloor>param_reduction ps\<rfloor> (param_mix ps) s
                             (concat xss))),
            Some outs2) \<and>
     concat outs2 =
       map Some (snd (spec_block (param_bitDepth ps) \<lfloor>param_reduction ps\<rfloor> (param_mix ps) s
                        (concat xss))) \<and>
     map length outs2 = map length xss"
proof -
  let ?b = "param_bitDepth ps" and ?r = "\<lfloor>param_reduction ps\<rfloor>" and ?m = "param_mix ps"
  obtain st2 outs2 where pc:
    "process_channels (2 / levels_of ?b) ?r ?m (state_of s) ([] @ map finite_channel xss)
       (length ([] :: channel option list)) outs = (st2, outs2)"
    by (cases "process_channels (2 / levels_of ?b) ?r ?m (state_of s)
       ([] @ map finite_channel xss) (length ([] :: channel option list)) outs")
  from process_channels_spec [OF assms(1) pc]
  have r: "st2 = state_of (fst (spec_block ?b ?r ?m s (concat xss)))"
    "concat outs2 = map Some (snd (spec_block ?b ?r ?m s (concat xss)))"
    "map length outs2 = map length xss"
    by simp_all
  from pc assms(2)
  have "process (state_of s) (Some (map finite_channel xss)) (Some outs) ps = Inr (st2, Some outs2)"
    by (simp add: process_def Let_def)
  with r show ?thesis by blast
qed

text \<open>
  Claim C1. Whatever the k-rate parameters of a block are, \<open>process\<close> computes every
  output sample by the specified rule: with \<open>levels = 2 ^ bitDepth\<close> and
  \<open>step = 2 / levels\<close>, the counter is incremented for each sample; when it has reached
  \<open>reductionFactor\<close> (the integer part of the \<open>reduction\<close> parameter) it is reset to 0
  and the held sample becomes \<open>clamp (floor ((x + 1) / step) * step - 1, -1, 1)\<close>,
  otherwise the held sample is kept; the output is \<open>x * (1 - mix) + heldSample * mix\<close>.
  The block is any number of channels of finite frames, with output buffers of the same
  lengths; the samples are taken in channel order, each from the state the previous
  one left.
\<close>

theorem process_computes_spec_block:
  assumes "map length outs = map length xss" and "xss \<noteq> []"
  shows "\<exists>outs2.
     process (state_of s) (Some (map finite_channel xss)) (Some outs) ps =
       Inr (state_of (fst (spec_block (param_bitDepth ps) \<lfloor>param_reduction ps\<rfloor> (param_mix ps) s
                             (concat xss))),
            Some outs2) \<and>
     concat outs2 =
       map Some (snd (spec_block (param_bitDepth ps) \<lfloor>param_reduction ps\<rfloor> (param_mix ps) s
                        (concat xss))) \<and>
     map length outs2 = map length xss"
  using assms by (rule process_on_finite_channels)

theorem process_computes_spec_block_witness:
  "map length [[Some 0, Some 0 :: sample]] = map length [[- 1, 1 / 2 :: real]] \<and>
   [[- 1, 1 / 2 :: real]] \<noteq> [] \<and>
   (\<exists>outs2.
      process (state_of (0, 0)) (Some (map finite_channel [[- 1, 1 / 2]]))
        (Some [[Some 0, Some 0]])
        \<lparr>param_bitDepth = 1, param_reduction = 1, param_mix = 1\<rparr> =
        Inr (state_of (0, 0), Some outs2) \<and>
      concat outs2 = [Some (- 1), Some 0] \<and> map length outs2 = [Suc (Suc 0)])"
  using process_computes_spec_block [of "[[Some 0, Some 0]]" "[[- 1, 1 / 2]]" "(0, 0)"
      "\<lparr>param_bitDepth = 1, param_reduction = 1, param_mix = 1\<rparr>"]
  by (simp add: spec_sample_def spec_clamp_def Let_def)


subsection \<open>One bit: two levels and the ramp scenario\<close>

lemma levels_of_1: "levels_of 1 = 2"
  by (simp add: levels_of_def)

lemma step_of_1: "step_of 1 = 1"
  by (simp add: step_of_def levels_of_def)

lemma process_channel_same_length:
  "length outputChannel = length inputChannel \<Longrightarrow>
   process_channel step red m st inputChannel outputChannel =
     process_frames step red m st inputChannel"
  by (simp add: process_channel_def read_all_frames)

lemma process_frame_hold:
  "sampleCounter st + 1 < red \<Longrightarrow>
   process_frame step red m st x =
     (st\<lparr>sampleCounter := sampleCounter st + 1\<rparr>, mix_dry_wet m x (lastSample st))"
  by (simp add: process_frame_def Let_def)

lemma process_frame_sample:
  "red \<le> sampleCounter st + 1 \<Longrightarrow>
   process_frame step red m st x =
     (st\<lparr>sampleCounter := 0, lastSample := clamp_sample (quantize step x)\<rparr>,
      mix_dry_wet m x (clamp_sample (quantize step x)))"
  by (simp add: process_frame_def Let_def)

lemmas run_frames =
  process_def levels_of_def finite_channel_def silent_def constructor_def state_of_def
  read_channel_def process_channel_same_length process_frame_hold process_frame_sample
  quantize_def clamp_sample_def mix_dry_wet_def

lemma ramp8_fresh:
  "process constructor (Some [finite_channel ramp8]) (Some [silent 8])
     \<lparr>param_bitDepth = 1, param_reduction = 4, param_mix = 1\<rparr> =
   Inr (\<lparr>lastSample = Some 1, sampleCounter = 0\<rparr>,
        Some [[Some 0, Some 0, Some 0, Some (- 1), Some (- 1), Some (- 1), Some (- 1), Some 1]])"
  by (simp add: run_frames ramp8_def)

lemma ramp8_aligned:
  "process \<lparr>lastSample = h, sampleCounter = 3\<rparr> (Some [finite_channel ramp8]) (Some [silent 8])
     \<lparr>param_bitDepth = 1, param_reduction = 4, param_mix = 1\<rparr> =
   Inr (\<lparr>lastSample = Some 0, sampleCounter = 3\<rparr>,
        Some [[Some (- 1), Some (- 1), Some (- 1), Some (- 1), Some 0, Some 0, Some 0, Some 0]])"
  by (simp add: run_frames ramp8_def)

lemma ramp8_open_fresh:
  "process constructor (Some [finite_channel ramp8_open]) (Some [silent 8])
     \<lparr>param_bitDepth = 1, param_reduction = 4, param_mix = 1\<rparr> =
   Inr (\<lparr>lastSample = Some 0, sampleCounter = 0\<rparr>,
        Some [[Some 0, Some 0, Some 0, Some (- 1), Some (- 1), Some (- 1), Some (- 1), Some 0]])"
  by (simp add: run_frames ramp8_open_def)

lemma quantize_two_levels:
  assumes "- 1 \<le> x" and "x < 1"
  shows "clamp_sample (quantize (step_of 1) (Some x)) = Some (- 1) \<or>
         clamp_sample (quantize (step_of 1) (Some x)) = Some 0"
proof (cases "x < 0")
  case True
  with assms have "\<lfloor>x\<rfloor> = - 1" by (intro floor_unique) simp_all
  then show ?thesis by (simp add: step_of_1 quantize_def clamp_sample_def)
next
  case False
  with assms have "\<lfloor>x\<rfloor> = 0" by (intro floor_unique) simp_all
  then show ?thesis by (simp add: step_of_1 quantize_def clamp_sample_def)
qed

lemma quantize_top: "clamp_sample (quantize (step_of 1) (Some 1)) = Some 1"
  by (simp add: step_of_1 quantize_def clamp_sample_def)

text \<open>
  Claim C3 as stated fails on the code. At \<open>bitDepth = 1\<close> there are \<open>2 ^ 1 = 2\<close>
  levels and the step is \<open>2 / 2 = 1\<close>, not 2; and a freshly constructed processor with
  \<open>reductionFactor = 4\<close> and \<open>mix = 1\<close> turns the ramp into three distinct values: its
  initial held sample 0 for the first three frames (the counter reaches 4 at the fourth
  frame only), then -1 for four frames, then 1 for the last.
\<close>

theorem one_bit_ramp_counterexample:
  "step_of 1 \<noteq> 2 \<and>
   process constructor (Some [finite_channel ramp8]) (Some [silent 8])
     \<lparr>param_bitDepth = 1, param_reduction = 4, param_mix = 1\<rparr> =
   Inr (\<lparr>lastSample = Some 1, sampleCounter = 0\<rparr>,
        Some [[Some 0, Some 0, Some 0, Some (- 1), Some (- 1), Some (- 1), Some (- 1), Some 1]])"
  by (simp add: step_of_1 ramp8_fresh)

text \<open>
  Claim C3, amended. When \<open>bitDepth = 1\<close> there are 2 levels and the quantization step
  equals 1; every sample in \<open>[-1, 1)\<close> quantizes to one of the two levels -1 and 0, and
  the sample 1 to 1. With \<open>reductionFactor = 4\<close>, \<open>bitDepth = 1\<close> and \<open>mix = 1\<close> on the
  ramp from -1 to 1 over 8 samples, a freshly constructed processor outputs 0, 0, 0,
  -1, -1, -1, -1, 1; a processor whose counter stands at 3 when the block starts (so
  that the first frame is sampled) outputs exactly 2 distinct values, -1 and 0, each
  held for exactly 4 of the 8 samples. On the ramp that stops one step short of 1, the
  freshly constructed processor outputs 0, 0, 0, -1, -1, -1, -1, 0.
\<close>

theorem one_bit_ramp:
  assumes "- 1 \<le> x" and "x < 1"
  shows "levels_of 1 = 2 \<and> step_of 1 = 1 \<and>
     (clamp_sample (quantize (step_of 1) (Some x)) = Some (- 1) \<or>
      clamp_sample (quantize (step_of 1) (Some x)) = Some 0) \<and>
     clamp_sample (quantize (step_of 1) (Some 1)) = Some 1 \<and>
     process constructor (Some [finite_channel ramp8]) (Some [silent 8])
       \<lparr>param_bitDepth = 1, param_reduction = 4, param_mix = 1\<rparr> =
     Inr (\<lparr>lastSample = Some 1, sampleCounter = 0\<rparr>,
          Some [[Some 0, Some 0, Some 0, Some (- 1), Some (- 1), Some (- 1), Some (- 1), Some 1]]) \<and>
     process \<lparr>lastSample = h, sampleCounter = 3\<rparr> (Some [finite_channel ramp8]) (Some [silent 8])
       \<lparr>param_bitDepth = 1, param_reduction = 4, param_mix = 1\<rparr> =
     Inr (\<lparr>lastSample = Some 0, sampleCounter = 3\<rparr>,
          Some [[Some (- 1), Some (- 1), Some (- 1), Some (- 1), Some 0, Some 0, Some 0, Some 0]]) \<and>
     process constructor (Some [finite_channel ramp8_open]) (Some [silent 8])
       \<lparr>param_bitDepth = 1, param_reduction = 4, param_mix = 1\<rparr> =
     Inr (\<lparr>lastSample = Some 0, sampleCounter = 0\<rparr>,
          Some [[Some 0, Some 0, Some 0, Some (- 1), Some (- 1), Some (- 1), Some (- 1), Some 0]])"
  using quantize_two_levels [OF assms] quantize_top
  by (simp add: levels_of_1 step_of_1 ramp8_fresh ramp8_aligned ramp8_open_fresh)

theorem one_bit_ramp_witness:
  "- 1 \<le> (1 / 2 :: real) \<and> (1 / 2 :: real) < 1 \<and>
   clamp_sample (quantize (step_of 1) (Some (1 / 2))) = Some 0 \<and>
   process \<lparr>lastSample = Some 0, sampleCounter = 3\<rparr> (Some [finite_channel ramp8])
       (Some [silent 8]) \<lparr>param_bitDepth = 1, param_reduction = 4, param_mix = 1\<rparr> =
     Inr (\<lparr>lastSample = Some 0, sampleCounter = 3\<rparr>,
          Some [[Some (- 1), Some (- 1), Some (- 1), Some (- 1), Some 0, Some 0, Some 0, Some 0]])"
proof -
  have a: "- 1 \<le> (1 / 2 :: real)" and b: "(1 / 2 :: real) < 1" by simp_all
  from one_bit_ramp [OF a b, of "Some 0"] show ?thesis
    by (simp add: step_of_1 quantize_def clamp_sample_def)
qed


subsection \<open>The fully wet output lies on the grid\<close>

lemma on_gridI:
  assumes "0 < L" "0 \<le> k" "of_int k \<le> L"
  shows "on_grid L (of_int k * (2 / L) - 1)"
  using assms by (simp add: on_grid_def Let_def)

lemma on_grid_zero: "1 \<le> n \<Longrightarrow> on_grid (2 ^ n) 0"
proof -
  assume "1 \<le> n"
  then obtain k where n: "n = Suc k" by (cases n) auto
  have "on_grid (2 ^ n) (of_int (2 ^ k) * (2 / 2 ^ n) - 1)"
    by (rule on_gridI) (simp_all add: n)
  then show ?thesis by (simp add: n)
qed

lemma spec_clamp_on_grid:
  fixes L :: real
  assumes L: "L = of_int l" "0 < l"
  shows "on_grid L (spec_clamp (of_int \<lfloor>(x + 1) / (2 / L)\<rfloor> * (2 / L) - 1) (- 1) 1)"
proof -
  define k where "k = \<lfloor>(x + 1) / (2 / L)\<rfloor>"
  have Lpos: "0 < L" using L by simp
  then have spos: "0 < 2 / L" by simp
  have top: "of_int l * (2 / L) = 2" using L by simp
  consider "k < 0" | "0 \<le> k" "k \<le> l" | "l < k" by linarith
  then have "on_grid L (spec_clamp (of_int k * (2 / L) - 1) (- 1) 1)"
  proof cases
    case 1
    then have "real_of_int k < 0" by simp
    from mult_neg_pos [OF this spos]
    have "spec_clamp (of_int k * (2 / L) - 1) (- 1) 1 = of_int 0 * (2 / L) - 1"
      by (simp add: spec_clamp_def)
    moreover have "on_grid L (of_int 0 * (2 / L) - 1)"
      by (rule on_gridI) (use Lpos in simp_all)
    ultimately show ?thesis by simp
  next
    case 2
    then have kl: "real_of_int k \<le> of_int l" and k0: "0 \<le> real_of_int k" by simp_all
    from spos have s0: "0 \<le> 2 / L" by simp
    from mult_right_mono [OF kl s0] mult_nonneg_nonneg [OF k0 s0]
    have "of_int k * (2 / L) \<le> of_int l * (2 / L)" "0 \<le> of_int k * (2 / L)" .
    then have "spec_clamp (of_int k * (2 / L) - 1) (- 1) 1 = of_int k * (2 / L) - 1"
      unfolding top by (simp add: spec_clamp_def)
    moreover have "on_grid L (of_int k * (2 / L) - 1)"
      by (rule on_gridI) (use 2 L Lpos in simp_all)
    ultimately show ?thesis by simp
  next
    case 3
    then have "real_of_int l < of_int k" by simp
    from mult_strict_right_mono [OF this spos]
    have "2 < of_int k * (2 / L)" unfolding top .
    then have "spec_clamp (of_int k * (2 / L) - 1) (- 1) 1 = of_int l * (2 / L) - 1"
      unfolding top by (simp add: spec_clamp_def)
    moreover have "on_grid L (of_int l * (2 / L) - 1)"
      by (rule on_gridI) (use L Lpos in simp_all)
    ultimately show ?thesis by simp
  qed
  then show ?thesis by (simp only: k_def)
qed

lemma spec_sample_on_grid:
  assumes "on_grid (2 ^ n) (snd s)"
  shows "on_grid (2 ^ n) (snd (fst (spec_sample (real n) r 1 s x))) \<and>
         snd (spec_sample (real n) r 1 s x) = snd (fst (spec_sample (real n) r 1 s x))"
proof -
  have p: "2 powr (real n) = (2::real) ^ n" by (simp add: powr_realpow)
  have g: "on_grid (2 ^ n) (spec_clamp (of_int \<lfloor>(x + 1) / (2 / 2 ^ n)\<rfloor> * (2 / 2 ^ n) - 1) (- 1) 1)"
    by (rule spec_clamp_on_grid [where l = "2 ^ n"]) simp_all
  show ?thesis using assms g
    by (simp add: spec_sample_def Let_def p)
qed

lemma spec_block_on_grid:
  "on_grid (2 ^ n) (snd s) \<Longrightarrow>
   list_all (on_grid (2 ^ n)) (snd (spec_block (real n) r 1 s xs)) \<and>
   on_grid (2 ^ n) (snd (fst (spec_block (real n) r 1 s xs)))"
proof (induction xs arbitrary: s)
  case Nil
  then show ?case by simp
next
  case (Cons x xs)
  from spec_sample_on_grid [OF Cons.prems, of r x]
  have a: "on_grid (2 ^ n) (snd (fst (spec_sample (real n) r 1 s x)))"
    and b: "snd (spec_sample (real n) r 1 s x) = snd (fst (spec_sample (real n) r 1 s x))"
    by simp_all
  from Cons.IH [OF a] a b show ?case
    by (simp add: case_prod_beta)
qed

lemma list_all_concat: "list_all P (concat xss) = list_all (list_all P) xss"
  by (induction xss) simp_all

lemma three_values:
  "process constructor (Some [finite_channel [- 1, 0, 1]]) (Some [silent 3])
     \<lparr>param_bitDepth = 1, param_reduction = 1, param_mix = 1\<rparr> =
   Inr (\<lparr>lastSample = Some 1, sampleCounter = 0\<rparr>, Some [[Some (- 1), Some 0, Some 1]])"
  by (simp add: run_frames)

text \<open>
  Claim C9 as stated fails on the code. With \<open>bitDepth = 1\<close> there are \<open>levels = 2\<close>
  levels, yet the fully wet processor (here sampling every frame) outputs three distinct
  values for the inputs -1, 0 and 1: the input 1 quantizes to 1, which the clamp keeps.
\<close>

theorem wet_grid_counterexample:
  "levels_of 1 = 2 \<and>
   process constructor (Some [finite_channel [- 1, 0, 1]]) (Some [silent 3])
     \<lparr>param_bitDepth = 1, param_reduction = 1, param_mix = 1\<rparr> =
   Inr (\<lparr>lastSample = Some 1, sampleCounter = 0\<rparr>, Some [[Some (- 1), Some 0, Some 1]]) \<and>
   distinct [Some (- 1), Some 0, Some (1 :: real)]"
  by (simp add: levels_of_1 three_values)

text \<open>
  Claim C9, amended. For every whole \<open>bitDepth = n \<ge> 1\<close> (so for every whole bit depth
  in \<open>[1, 16]\<close>), with \<open>levels = 2 ^ n\<close>, every output value of the fully wet processor
  (\<open>mix = 1\<close>) lies on one of the \<open>levels + 1\<close> uniform grid points \<open>-1 + k * (2 / levels)\<close>,
  \<open>0 \<le> k \<le> levels\<close>, within \<open>[-1, 1]\<close>, and so does the held sample it leaves. The
  processor starts from a state whose held sample is on the grid, as the constructor's 0
  is; the channels hold finite frames of any size.
\<close>

theorem wet_output_on_grid:
  assumes "map length outs = map length xss" and "xss \<noteq> []"
    and "param_bitDepth ps = real n" and "1 \<le> n" and "param_mix ps = 1"
    and "on_grid (2 ^ n) (snd s)"
  shows "\<exists>st2 outs2.
     process (state_of s) (Some (map finite_channel xss)) (Some outs) ps = Inr (st2, Some outs2) \<and>
     list_all (list_all (sample_on_grid (2 ^ n))) outs2 \<and>
     sample_on_grid (2 ^ n) (lastSample st2)"
proof -
  let ?sb = "spec_block (real n) \<lfloor>param_reduction ps\<rfloor> 1 s (concat xss)"
  from process_on_finite_channels [OF assms(1,2), of s ps] assms(3,5)
  obtain outs2 where p: "process (state_of s) (Some (map finite_channel xss)) (Some outs) ps =
       Inr (state_of (fst ?sb), Some outs2)"
    and c: "concat outs2 = map Some (snd ?sb)"
    by auto
  from spec_block_on_grid [OF assms(6), of "\<lfloor>param_reduction ps\<rfloor>" "concat xss"]
  have g: "list_all (on_grid (2 ^ n)) (snd ?sb)" and h: "on_grid (2 ^ n) (snd (fst ?sb))"
    by simp_all
  from g have "list_all (sample_on_grid (2 ^ n)) (map Some (snd ?sb))"
    by (simp add: list_all_iff sample_on_grid_def)
  with c have "list_all (list_all (sample_on_grid (2 ^ n))) outs2"
    by (simp add: list_all_concat [symmetric])
  moreover from h have "sample_on_grid (2 ^ n) (lastSample (state_of (fst ?sb)))"
    by (simp add: state_of_def sample_on_grid_def)
  ultimately show ?thesis using p by blast
qed

theorem wet_output_on_grid_witness:
  "map length [silent 3] = map length [[- 1, 0, 1 :: real]] \<and> [[- 1, 0, 1 :: real]] \<noteq> [] \<and>
   param_bitDepth \<lparr>param_bitDepth = 1, param_reduction = 1, param_mix = 1\<rparr> = real 1 \<and>
   (1 :: nat) \<le> 1 \<and>
   param_mix \<lparr>param_bitDepth = 1, param_reduction = 1, param_mix = 1\<rparr> = 1 \<and>
   on_grid (2 ^ 1) (snd (0 :: int, 0 :: real)) \<and>
   (\<exists>st2 outs2.
      process (state_of (0, 0)) (Some (map finite_channel [[- 1, 0, 1]])) (Some [silent 3])
        \<lparr>param_bitDepth = 1, param_reduction = 1, param_mix = 1\<rparr> = Inr (st2, Some outs2) \<and>
      list_all (list_all (sample_on_grid (2 ^ 1))) outs2 \<and>
      sample_on_grid (2 ^ 1) (lastSample st2))"
proof -
  have g: "on_grid (2 ^ 1) (snd (0 :: int, 0 :: real))"
    by (simp add: on_grid_def)
  have l: "map length [silent 3] = map length [[- 1, 0, 1 :: real]]"
    by (simp add: silent_def)
  from wet_output_on_grid [of "[silent 3]" "[[- 1, 0, 1]]"
      "\<lparr>param_bitDepth = 1, param_reduction = 1, param_mix = 1\<rparr>" 1 "(0, 0)", OF l _ _ _ _ g]
  show ?thesis using g l by simp
qed


subsection \<open>Sample and hold across blocks\<close>

lemma spec_block_take_Suc:
  assumes "k < length xs"
  shows "fst (spec_block b r m s (take (Suc k) xs)) =
         fst (spec_sample b r m (fst (spec_block b r m s (take k xs))) (xs ! k))"
  using assms by (simp add: take_Suc_conv_app_nth spec_block_append case_prod_beta)

lemma spec_block_nth:
  assumes "k < length xs"
  shows "snd (spec_block b r m s xs) ! k =
         snd (spec_sample b r m (fst (spec_block b r m s (take k xs))) (xs ! k))"
proof -
  have "xs = take k xs @ xs ! k # drop (Suc k) xs"
    using assms by (simp add: id_take_nth_drop)
  then have "snd (spec_block b r m s xs) ! k =
      snd (spec_block b r m s (take k xs @ xs ! k # drop (Suc k) xs)) ! k"
    by simp
  also have "\<dots> = snd (spec_sample b r m (fst (spec_block b r m s (take k xs))) (xs ! k))"
    using assms
    by (simp add: spec_block_append nth_append length_spec_block case_prod_beta)
  finally show ?thesis .
qed

lemma spec_sample_wet:
  "snd (spec_sample b r 1 s x) = snd (fst (spec_sample b r 1 s x))"
  by (simp add: spec_sample_def Let_def)

lemma spec_sample_recomputed:
  "snd (fst (spec_sample b r m s x)) \<noteq> snd s \<Longrightarrow> fst (fst (spec_sample b r m s x)) = 0"
  by (simp add: spec_sample_def Let_def split: if_splits)

lemma spec_sample_held:
  "fst s + 1 < r \<Longrightarrow> fst (spec_sample b r m s x) = (fst s + 1, snd s)"
  by (simp add: spec_sample_def Let_def)

lemma spec_block_wet_nth:
  assumes "k < length xs"
  shows "snd (spec_block b r 1 s xs) ! k = snd (fst (spec_block b r 1 s (take (Suc k) xs)))"
  using assms by (simp add: spec_block_nth spec_sample_wet spec_block_take_Suc)

lemma spec_block_hold_run:
  "a + d \<le> length xs \<Longrightarrow>
   fst (fst (spec_block b r m s (take a xs))) + int d < r \<Longrightarrow>
   fst (spec_block b r m s (take (a + d) xs)) =
     (fst (fst (spec_block b r m s (take a xs))) + int d, snd (fst (spec_block b r m s (take a xs))))"
proof (induction d)
  case 0
  then show ?case by simp
next
  case (Suc d)
  from Suc.prems have lt: "a + d < length xs" by simp
  from Suc.prems have "fst (fst (spec_block b r m s (take a xs))) + int d < r" by simp
  with Suc.IH lt have ih: "fst (spec_block b r m s (take (a + d) xs)) =
     (fst (fst (spec_block b r m s (take a xs))) + int d, snd (fst (spec_block b r m s (take a xs))))"
    by simp
  have "fst (spec_block b r m s (take (Suc (a + d)) xs)) =
      fst (spec_sample b r m (fst (spec_block b r m s (take (a + d) xs))) (xs ! (a + d)))"
    by (rule spec_block_take_Suc [OF lt])
  also have "\<dots> = (fst (fst (spec_block b r m s (take a xs))) + int (Suc d),
      snd (fst (spec_block b r m s (take a xs))))"
    using Suc.prems(2) by (simp add: ih spec_sample_held)
  finally show ?case by simp
qed

lemma held_spacing:
  assumes i: "changes_at (snd (spec_block b r 1 s xs)) i"
    and j: "changes_at (snd (spec_block b r 1 s xs)) j"
    and ij: "i < j"
  shows "r \<le> int (j - i)"
proof (rule ccontr)
  assume "\<not> r \<le> int (j - i)"
  then have short: "int (j - i) < r" by simp
  let ?S = "\<lambda>k. fst (spec_block b r 1 s (take k xs))"
  let ?ys = "snd (spec_block b r 1 s xs)"
  from i j have ilen: "i < length xs" and jlen: "j < length xs" and ipos: "0 < i"
    by (simp_all add: changes_at_def length_spec_block)
  have y: "?ys ! k = snd (?S (Suc k))" if "k < length xs" for k
    using that by (rule spec_block_wet_nth)
  from ipos obtain i0 where i0: "i = Suc i0" by (cases i) auto
  from ij obtain j0 where j0: "j = Suc j0" by (cases j) auto
  from i have "snd (?S (Suc i)) \<noteq> snd (?S i)"
    using y [of i] y [of i0] ilen by (simp add: changes_at_def i0)
  then have "snd (fst (spec_sample b r 1 (?S i) (xs ! i))) \<noteq> snd (?S i)"
    by (simp add: spec_block_take_Suc [OF ilen])
  then have "fst (fst (spec_sample b r 1 (?S i) (xs ! i))) = 0"
    by (rule spec_sample_recomputed)
  then have zero: "fst (?S (Suc i)) = 0"
    by (simp add: spec_block_take_Suc [OF ilen])
  have run: "snd (?S (Suc i + d)) = snd (?S (Suc i))" if "Suc i + d \<le> length xs" "int d < r" for d
    using spec_block_hold_run [OF that(1), of b r 1 s] that(2) zero by simp
  have "snd (?S (Suc j)) = snd (?S (Suc i))"
    using run [of "j - i"] ij jlen short by simp
  moreover have "snd (?S j) = snd (?S (Suc i))"
    using run [of "j - Suc i"] ij jlen short by simp
  ultimately have "?ys ! j = ?ys ! j0"
    using y [of j] y [of j0] jlen by (simp add: j0)
  with j show False by (simp add: changes_at_def j0)
qed

lemma changes_at_map_Some: "changes_at (map Some ys) i = changes_at ys i"
  by (auto simp: changes_at_def)

lemma two_channels_first_block:
  "process constructor (Some [finite_channel [- 1, - 1, - 1], finite_channel [1, 1, 1]])
     (Some [silent 3, silent 3]) \<lparr>param_bitDepth = 1, param_reduction = 4, param_mix = 1\<rparr> =
   Inr (\<lparr>lastSample = Some 1, sampleCounter = 2\<rparr>,
        Some [[Some 0, Some 0, Some 0], [Some 1, Some 1, Some 1]])"
  by (simp add: run_frames)

lemma two_channels_second_block:
  "process \<lparr>lastSample = Some 1, sampleCounter = 2\<rparr>
     (Some [finite_channel [- 1, - 1, - 1], finite_channel [1, 1, 1]])
     (Some [silent 3, silent 3]) \<lparr>param_bitDepth = 1, param_reduction = 4, param_mix = 1\<rparr> =
   Inr (\<lparr>lastSample = Some 1, sampleCounter = 0\<rparr>,
        Some [[Some 1, Some (- 1), Some (- 1)], [Some (- 1), Some (- 1), Some 1]])"
  by (simp add: run_frames)

text \<open>
  Claim C2 as stated fails on the code: the processor has one counter and one held
  sample for all its channels, not one pair per channel. With two channels,
  \<open>reductionFactor = 4\<close> and \<open>mix = 1\<close>, two consecutive blocks of three frames (channel 0
  constantly -1, channel 1 constantly 1) give channel 0 the output 0, 0, 0 and then
  1, -1, -1: the first frame of the second block carries the sample held from channel 1,
  and the output of channel 0 changes at two frames in a row, fewer than 4 apart.
\<close>

theorem hold_per_channel_counterexample:
  "process constructor (Some [finite_channel [- 1, - 1, - 1], finite_channel [1, 1, 1]])
     (Some [silent 3, silent 3]) \<lparr>param_bitDepth = 1, param_reduction = 4, param_mix = 1\<rparr> =
   Inr (\<lparr>lastSample = Some 1, sampleCounter = 2\<rparr>,
        Some [[Some 0, Some 0, Some 0], [Some 1, Some 1, Some 1]]) \<and>
   process \<lparr>lastSample = Some 1, sampleCounter = 2\<rparr>
     (Some [finite_channel [- 1, - 1, - 1], finite_channel [1, 1, 1]])
     (Some [silent 3, silent 3]) \<lparr>param_bitDepth = 1, param_reduction = 4, param_mix = 1\<rparr> =
   Inr (\<lparr>lastSample = Some 1, sampleCounter = 0\<rparr>,
        Some [[Some 1, Some (- 1), Some (- 1)], [Some (- 1), Some (- 1), Some 1]]) \<and>
   changes_at ([Some 0, Some 0, Some 0] @ [Some 1, Some (- 1), Some (- 1 :: real)]) 3 \<and>
   changes_at ([Some 0, Some 0, Some 0] @ [Some 1, Some (- 1), Some (- 1 :: real)]) 4 \<and>
   \<not> \<lfloor>param_reduction \<lparr>param_bitDepth = 1, param_reduction = 4, param_mix = 1\<rparr>\<rfloor>
       \<le> int (4 - 3)"
  by (simp add: two_channels_first_block two_channels_second_block changes_at_def)

lemma process_frames_append:
  "process_frames step red m st (xs @ ys) =
     (fst (process_frames step red m (fst (process_frames step red m st xs)) ys),
      snd (process_frames step red m st xs) @
      snd (process_frames step red m (fst (process_frames step red m st xs)) ys))"
  by (induction xs arbitrary: st) (simp_all add: case_prod_beta)

lemma process_one_channel:
  "length out = length c \<Longrightarrow>
   process st (Some [Some c]) (Some [out]) ps =
     Inr (fst (process_frames (2 / levels_of (param_bitDepth ps)) \<lfloor>param_reduction ps\<rfloor>
                 (param_mix ps) st c),
          Some [snd (process_frames (2 / levels_of (param_bitDepth ps)) \<lfloor>param_reduction ps\<rfloor>
                 (param_mix ps) st c)])"
  by (simp add: process_def Let_def read_channel_def process_channel_same_length case_prod_beta)

lemma process_two_channels:
  "length o1 = length c1 \<Longrightarrow> length o2 = length c2 \<Longrightarrow>
   process st (Some [Some c1, Some c2]) (Some [o1, o2]) ps =
     Inr (fst (process_frames (2 / levels_of (param_bitDepth ps)) \<lfloor>param_reduction ps\<rfloor>
                 (param_mix ps)
                 (fst (process_frames (2 / levels_of (param_bitDepth ps)) \<lfloor>param_reduction ps\<rfloor>
                   (param_mix ps) st c1)) c2),
          Some [snd (process_frames (2 / levels_of (param_bitDepth ps)) \<lfloor>param_reduction ps\<rfloor>
                 (param_mix ps) st c1),
                snd (process_frames (2 / levels_of (param_bitDepth ps)) \<lfloor>param_reduction ps\<rfloor>
                 (param_mix ps)
                 (fst (process_frames (2 / levels_of (param_bitDepth ps)) \<lfloor>param_reduction ps\<rfloor>
                   (param_mix ps) st c1)) c2)])"
  by (simp add: process_def Let_def read_channel_def process_channel_same_length case_prod_beta)

lemma all_finite_map_the: "all_finite c \<Longrightarrow> c = map Some (map the c)"
  by (induction c) (auto simp: all_finite_def)

lemma wet_frames_spacing:
  assumes "lastSample st \<noteq> None" and "all_finite c"
    and "changes_at (snd (process_frames (2 / levels_of b) r 1 st c)) i"
    and "changes_at (snd (process_frames (2 / levels_of b) r 1 st c)) j"
    and "i < j"
  shows "r \<le> int (j - i)"
proof -
  from assms(1) obtain h where h: "lastSample st = Some h" by auto
  have st: "st = state_of (sampleCounter st, h)"
    by (simp add: state_of_def h [symmetric])
  from all_finite_map_the [OF assms(2)] obtain xs where xs: "c = map Some xs" by blast
  have "process_frames (2 / levels_of b) r 1 (state_of (sampleCounter st, h)) (map Some xs) =
      (state_of (fst (spec_block b r 1 (sampleCounter st, h) xs)),
       map Some (snd (spec_block b r 1 (sampleCounter st, h) xs)))"
    by (rule process_frames_spec)
  then have "snd (process_frames (2 / levels_of b) r 1 st c) =
      map Some (snd (spec_block b r 1 (sampleCounter st, h) xs))"
    unfolding xs st [symmetric] by simp
  with assms(3,4)
  have "changes_at (snd (spec_block b r 1 (sampleCounter st, h) xs)) i"
    and "changes_at (snd (spec_block b r 1 (sampleCounter st, h) xs)) j"
    by (simp_all add: changes_at_map_Some)
  then show ?thesis using assms(5) by (rule held_spacing)
qed

text \<open>
  Claim C2, amended. The decimation state (counter, held sample) is one pair for the
  whole processor. It persists across block boundaries without being reset: two
  consecutive blocks of one channel give the state and the output that the one block
  made of both gives. It is shared by the channels: the second channel of a block starts
  from the state the first channel left, so two channels in one block give the state and
  the outputs that the two channels give as consecutive blocks. When the input has a
  single channel, for every \<open>reductionFactor\<close> (so for every \<open>reductionFactor \<ge> 1\<close>) the
  held output, which is the output at \<open>mix = 1\<close> on finite samples, changes at most once
  every \<open>reductionFactor\<close> input samples, also when those samples span the two blocks:
  two changes are at least \<open>reductionFactor\<close> frames apart.
\<close>

theorem state_persists_and_is_shared:
  assumes "length o1 = length c1" and "length o2 = length c2"
    and "process st (Some [Some c1]) (Some [o1]) ps = Inr (st1, Some [y1])"
    and "process st1 (Some [Some c2]) (Some [o2]) ps = Inr (st2, Some [y2])"
  shows "process st (Some [Some (c1 @ c2)]) (Some [o1 @ o2]) ps = Inr (st2, Some [y1 @ y2]) \<and>
         process st (Some [Some c1, Some c2]) (Some [o1, o2]) ps = Inr (st2, Some [y1, y2]) \<and>
         (param_mix ps = 1 \<and> lastSample st \<noteq> None \<and> all_finite (c1 @ c2) \<longrightarrow>
            (\<forall>i j. changes_at (y1 @ y2) i \<and> changes_at (y1 @ y2) j \<and> i < j \<longrightarrow>
               \<lfloor>param_reduction ps\<rfloor> \<le> int (j - i)))"
proof -
  let ?step = "2 / levels_of (param_bitDepth ps)" and ?r = "\<lfloor>param_reduction ps\<rfloor>"
  let ?m = "param_mix ps"
  from assms(1,3) have a: "st1 = fst (process_frames ?step ?r ?m st c1)"
    and b: "y1 = snd (process_frames ?step ?r ?m st c1)"
    by (simp_all add: process_one_channel)
  from assms(2,4) have c: "st2 = fst (process_frames ?step ?r ?m st1 c2)"
    and d: "y2 = snd (process_frames ?step ?r ?m st1 c2)"
    by (simp_all add: process_one_channel)
  have len: "length (o1 @ o2) = length (c1 @ c2)" using assms(1,2) by simp
  have whole: "process_frames ?step ?r ?m st (c1 @ c2) = (st2, y1 @ y2)"
    by (simp add: process_frames_append a b c d)
  have one: "process st (Some [Some (c1 @ c2)]) (Some [o1 @ o2]) ps = Inr (st2, Some [y1 @ y2])"
    by (simp add: process_one_channel [OF len] whole)
  have two: "process st (Some [Some c1, Some c2]) (Some [o1, o2]) ps = Inr (st2, Some [y1, y2])"
    by (simp add: process_two_channels [OF assms(1,2)] a b c d)
  have three: "\<lfloor>param_reduction ps\<rfloor> \<le> int (j - i)"
    if "param_mix ps = 1" "lastSample st \<noteq> None" "all_finite (c1 @ c2)"
      "changes_at (y1 @ y2) i" "changes_at (y1 @ y2) j" "i < j" for i j
  proof -
    from whole that(1) have "snd (process_frames ?step ?r 1 st (c1 @ c2)) = y1 @ y2" by simp
    with that(4,5)
    have "changes_at (snd (process_frames ?step ?r 1 st (c1 @ c2))) i"
      and "changes_at (snd (process_frames ?step ?r 1 st (c1 @ c2))) j"
      by simp_all
    from wet_frames_spacing [OF that(2,3) this that(6)] show ?thesis .
  qed
  from one two three show ?thesis by blast
qed

lemma one_channel_first_block:
  "process constructor (Some [Some [Some (- 1), Some 1]]) (Some [silent 2])
     \<lparr>param_bitDepth = 1, param_reduction = 2, param_mix = 1\<rparr> =
   Inr (\<lparr>lastSample = Some 1, sampleCounter = 0\<rparr>, Some [[Some 0, Some 1]])"
  by (simp add: run_frames)

lemma one_channel_second_block:
  "process \<lparr>lastSample = Some 1, sampleCounter = 0\<rparr> (Some [Some [Some (1 / 2), Some (- 1)]])
     (Some [silent 2]) \<lparr>param_bitDepth = 1, param_reduction = 2, param_mix = 1\<rparr> =
   Inr (\<lparr>lastSample = Some (- 1), sampleCounter = 0\<rparr>, Some [[Some 1, Some (- 1)]])"
  by (simp add: run_frames)

theorem state_persists_and_is_shared_witness:
  "length (silent 2) = length [Some (- 1), Some (1 :: real)] \<and>
   length (silent 2) = length [Some (1 / 2), Some (- 1 :: real)] \<and>
   process constructor (Some [Some [Some (- 1), Some 1]]) (Some [silent 2])
     \<lparr>param_bitDepth = 1, param_reduction = 2, param_mix = 1\<rparr> =
     Inr (\<lparr>lastSample = Some 1, sampleCounter = 0\<rparr>, Some [[Some 0, Some 1]]) \<and>
   process \<lparr>lastSample = Some 1, sampleCounter = 0\<rparr> (Some [Some [Some (1 / 2), Some (- 1)]])
     (Some [silent 2]) \<lparr>param_bitDepth = 1, param_reduction = 2, param_mix = 1\<rparr> =
     Inr (\<lparr>lastSample = Some (- 1), sampleCounter = 0\<rparr>, Some [[Some 1, Some (- 1)]]) \<and>
   process constructor (Some [Some ([Some (- 1), Some 1] @ [Some (1 / 2), Some (- 1)])])
     (Some [silent 2 @ silent 2]) \<lparr>param_bitDepth = 1, param_reduction = 2, param_mix = 1\<rparr> =
     Inr (\<lparr>lastSample = Some (- 1), sampleCounter = 0\<rparr>,
          Some [[Some 0, Some 1] @ [Some 1, Some (- 1)]]) \<and>
   process constructor (Some [Some [Some (- 1), Some 1], Some [Some (1 / 2), Some (- 1)]])
     (Some [silent 2, silent 2]) \<lparr>param_bitDepth = 1, param_reduction = 2, param_mix = 1\<rparr> =
     Inr (\<lparr>lastSample = Some (- 1), sampleCounter = 0\<rparr>,
          Some [[Some 0, Some 1], [Some 1, Some (- 1)]]) \<and>
   param_mix \<lparr>param_bitDepth = 1, param_reduction = 2, param_mix = 1\<rparr> = 1 \<and>
   lastSample constructor \<noteq> None \<and>
   all_finite ([Some (- 1), Some 1] @ [Some (1 / 2), Some (- 1)]) \<and>
   changes_at ([Some 0, Some 1] @ [Some 1, Some (- 1 :: real)]) 1 \<and>
   changes_at ([Some 0, Some 1] @ [Some 1, Some (- 1 :: real)]) 3 \<and>
   (1 :: nat) < 3 \<and>
   \<lfloor>param_reduction \<lparr>param_bitDepth = 1, param_reduction = 2, param_mix = 1\<rparr>\<rfloor> \<le> int (3 - 1)"
proof -
  let ?ps = "\<lparr>param_bitDepth = 1, param_reduction = 2, param_mix = 1\<rparr>"
  have l1: "length (silent 2) = length [Some (- 1), Some (1 :: real)]"
    and l2: "length (silent 2) = length [Some (1 / 2), Some (- 1 :: real)]"
    by (simp_all add: silent_def)
  have m: "param_mix ?ps = 1" by simp
  have h: "lastSample constructor \<noteq> None" by (simp add: constructor_def)
  have f: "all_finite ([Some (- 1), Some 1] @ [Some (1 / 2), Some (- 1)])"
    by (simp add: all_finite_def del: not_None_eq)
  have c1: "changes_at ([Some 0, Some 1] @ [Some 1, Some (- 1 :: real)]) 1"
    and c3: "changes_at ([Some 0, Some 1] @ [Some 1, Some (- 1 :: real)]) 3"
    by (simp_all add: changes_at_def)
  have lt: "(1 :: nat) < 3" by simp
  note t = state_persists_and_is_shared
    [OF l1 l2 one_channel_first_block one_channel_second_block]
  from t have one: "process constructor
      (Some [Some ([Some (- 1), Some 1] @ [Some (1 / 2), Some (- 1)])])
      (Some [silent 2 @ silent 2]) ?ps =
      Inr (\<lparr>lastSample = Some (- 1), sampleCounter = 0\<rparr>,
           Some [[Some 0, Some 1] @ [Some 1, Some (- 1)]])"
    by (rule conjunct1)
  from t have two: "process constructor
      (Some [Some [Some (- 1), Some 1], Some [Some (1 / 2), Some (- 1)]])
      (Some [silent 2, silent 2]) ?ps =
      Inr (\<lparr>lastSample = Some (- 1), sampleCounter = 0\<rparr>,
           Some [[Some 0, Some 1], [Some 1, Some (- 1)]])"
    by (rule conjunct1 [OF conjunct2])
  from t m h f c1 c3 lt
  have three: "\<lfloor>param_reduction ?ps\<rfloor> \<le> int (3 - 1)"
    by blast
  from l1 l2 one_channel_first_block one_channel_second_block one two m h f c1 c3 lt three
  show ?thesis by blast
qed

subsection \<open>The render path does not throw\<close>

lemma process_channels_skips:
  "process_channels step red m st input c outs = (st2, outs2) \<Longrightarrow>
   length outs2 = length outs \<and>
   (\<forall>k<length outs. read_channel input (c + k) = None \<longrightarrow> outs2 ! k = outs ! k)"
proof (induction outs arbitrary: c st st2 outs2)
  case Nil
  then show ?case by simp
next
  case (Cons out rest)
  show ?case
  proof (cases "read_channel input c")
    case None
    obtain st3 outs3 where rec: "process_channels step red m st input (Suc c) rest = (st3, outs3)"
      by (cases "process_channels step red m st input (Suc c) rest")
    from Cons.prems None rec have res: "outs2 = out # outs3" by simp
    from Cons.IH [OF rec] show ?thesis
      by (auto simp: res nth_Cons split: nat.splits)
  next
    case (Some inputChannel)
    obtain st1 out1 where pc: "process_channel step red m st inputChannel out = (st1, out1)"
      by (cases "process_channel step red m st inputChannel out")
    obtain st3 outs3 where rec: "process_channels step red m st1 input (Suc c) rest = (st3, outs3)"
      by (cases "process_channels step red m st1 input (Suc c) rest")
    from Cons.prems Some pc rec have res: "outs2 = out1 # outs3" by simp
    from Cons.IH [OF rec] Some show ?thesis
      by (auto simp: res nth_Cons split: nat.splits)
  qed
qed

text \<open>
  The one throwing path of the model: an input with channels and no first output, which
  a host that passes the node's single output never produces.
\<close>

lemma process_without_output:
  "process st (Some (chan # chans)) None ps = Inl TypeError"
  by (simp add: process_def Let_def)

text \<open>
  Claim C8. For every invocation of \<open>process\<close> on the output the host passes, with any
  state, any parameters and any input (absent, empty, with missing channels, with
  channels shorter than the output), no error is raised: the call returns the output
  buffers, as many as it was given. A channel with no input keeps the buffer the host
  passed for it, which is zero-filled, so that channel is silent; an absent or empty
  input also leaves the state as it was.
\<close>

theorem process_never_throws:
  "\<exists>st2 outs2.
     process st input (Some outs) ps = Inr (st2, Some outs2) \<and>
     length outs2 = length outs \<and>
     (\<forall>c<length outs. missing_channel input c \<longrightarrow> outs2 ! c = outs ! c) \<and>
     ((input = None \<or> input = Some []) \<longrightarrow> st2 = st)"
proof (cases input)
  case None
  then show ?thesis by (simp add: process_def)
next
  case (Some chans)
  show ?thesis
  proof (cases "chans = []")
    case True
    with Some show ?thesis by (simp add: process_def)
  next
    case False
    let ?step = "2 / levels_of (param_bitDepth ps)"
    obtain st2 outs2 where pc:
      "process_channels ?step \<lfloor>param_reduction ps\<rfloor> (param_mix ps) st chans 0 outs = (st2, outs2)"
      by (cases "process_channels ?step \<lfloor>param_reduction ps\<rfloor> (param_mix ps) st chans 0 outs")
    from process_channels_skips [OF pc]
    have "length outs2 = length outs"
      and "\<forall>k<length outs. read_channel chans k = None \<longrightarrow> outs2 ! k = outs ! k"
      by simp_all
    moreover from pc False Some
    have "process st input (Some outs) ps = Inr (st2, Some outs2)"
      by (simp add: process_def Let_def)
    ultimately show ?thesis using Some False
      by (simp add: missing_channel_def)
  qed
qed

theorem process_never_throws_witness:
  "\<exists>st2 outs2.
     process constructor (Some [Some [Some (1 / 2)], None]) (Some [silent 1, silent 1])
       \<lparr>param_bitDepth = 12, param_reduction = 1, param_mix = 1\<rparr> = Inr (st2, Some outs2) \<and>
     missing_channel (Some [Some [Some (1 / 2)], None]) 1 \<and>
     outs2 ! 1 = silent 1"
  using process_never_throws [of constructor "Some [Some [Some (1 / 2)], None]"
      "[silent 1, silent 1]" "\<lparr>param_bitDepth = 12, param_reduction = 1, param_mix = 1\<rparr>"]
  by (auto simp: missing_channel_def read_channel_def)

section \<open>Properties of the engine\<close>

subsection \<open>Scheduling a ramp\<close>

lemma ramp_to_returns: "accepts target \<Longrightarrow> fst (ramp_to target now p) = Returned"
  by (simp add: ramp_to_def Let_def)

lemma ramp_to_throws: "\<not> accepts target \<Longrightarrow> fst (ramp_to target now p) = Threw ParamTypeError"
  by (simp add: ramp_to_def Let_def)

lemma ramp_to_events:
  "accepts target \<Longrightarrow>
   events (snd (ramp_to target now p)) =
     filter (\<lambda>e. event_time e < now) (events p) @
     [SetValueAtTime (current_value p) now, LinearRampToValueAtTime target (now + smoothTime)]"
  by (auto simp add: ramp_to_def Let_def linearRampToValueAtTime_def setValueAtTime_def
      schedule_def cancelScheduledValues_def smoothTime_def intro!: filter_cong)

lemma ramp_target_ramp_to:
  "accepts target \<Longrightarrow> ramp_target (snd (ramp_to target now p)) = Some target"
  by (simp add: ramp_target_def ramp_to_events)

lemma ramp_target_current_value [simp]:
  "ramp_target (p\<lparr>current_value := v\<rparr>) = ramp_target p"
  by (simp add: ramp_target_def)

lemma ramp_node_param_keys:
  "(node_parameters (snd (ramp_node_param name target now node)) key = None) =
   (node_parameters node key = None)"
  by (simp add: ramp_node_param_def case_prod_beta split: option.splits)

lemma ramp_node_param_other:
  "key \<noteq> name \<Longrightarrow>
   node_parameters (snd (ramp_node_param name target now node)) key = node_parameters node key"
  by (simp add: ramp_node_param_def case_prod_beta split: option.splits)

lemma ramp_node_param_returns:
  "accepts target \<Longrightarrow> fst (ramp_node_param name target now node) = Returned"
  by (simp add: ramp_node_param_def case_prod_beta ramp_to_returns split: option.splits)

lemma ramp_node_param_throws:
  "\<not> accepts target \<Longrightarrow> node_parameters node name \<noteq> None \<Longrightarrow>
   fst (ramp_node_param name target now node) = Threw ParamTypeError"
  by (auto simp add: ramp_node_param_def case_prod_beta ramp_to_throws split: option.splits)

lemma ramp_node_param_target:
  "accepts target \<Longrightarrow> node_parameters node name \<noteq> None \<Longrightarrow>
   has_target (snd (ramp_node_param name target now node)) name target"
  by (auto simp add: ramp_node_param_def case_prod_beta has_target_def ramp_target_ramp_to
      split: option.splits)

lemma has_target_other:
  "key \<noteq> name \<Longrightarrow>
   has_target (snd (ramp_node_param name target now node)) key v = has_target node key v"
  by (simp add: has_target_def ramp_node_param_other)

lemma and_then_Returned: "fst r = Returned \<Longrightarrow> and_then r f = f (snd r)"
  by (cases r) (simp add: and_then_def)

lemma and_then_Threw: "fst r = Threw err \<Longrightarrow> and_then r f = r"
  by (cases r) (simp add: and_then_def)

lemma ramp_node_keys:
  "(node_parameters (snd (ramp_node s now node)) key = None) = (node_parameters node key = None)"
proof -
  have k: "(node_parameters (snd (and_then r (ramp_node_param name t now))) key = None) =
      (node_parameters (snd r) key = None)" for r name t
    by (cases r; cases "fst r") (simp_all add: and_then_def ramp_node_param_keys)
  show ?thesis by (simp add: ramp_node_def k ramp_node_param_keys)
qed

lemma ramp_node_keys_Some:
  "(\<exists>y. node_parameters (snd (ramp_node s now node)) key = Some y) =
   (\<exists>y. node_parameters node key = Some y)"
  using ramp_node_keys [of s now node key] by auto

lemma ramp_node_accepted:
  assumes "accepts (bitDepth s)" "accepts (reduction s)" "accepts (mix s)"
    and "node_parameters node ''bitDepth'' \<noteq> None"
    and "node_parameters node ''reduction'' \<noteq> None"
    and "node_parameters node ''mix'' \<noteq> None"
  shows "fst (ramp_node s now node) = Returned"
    and "has_target (snd (ramp_node s now node)) ''bitDepth'' (bitDepth s)"
    and "has_target (snd (ramp_node s now node)) ''reduction'' (reduction s)"
    and "has_target (snd (ramp_node s now node)) ''mix'' (mix s)"
proof -
  let ?n1 = "snd (ramp_node_param ''bitDepth'' (bitDepth s) now node)"
  let ?n2 = "snd (ramp_node_param ''reduction'' (reduction s) now ?n1)"
  let ?n3 = "snd (ramp_node_param ''mix'' (mix s) now ?n2)"
  have eq: "ramp_node s now node = ramp_node_param ''mix'' (mix s) now ?n2"
    using assms(1,2)
    by (simp add: ramp_node_def and_then_Returned ramp_node_param_returns)
  have k2: "node_parameters ?n1 ''reduction'' \<noteq> None"
    using assms(5) by (simp add: ramp_node_param_keys)
  have k3: "node_parameters ?n2 ''mix'' \<noteq> None"
    using assms(6) by (simp add: ramp_node_param_keys)
  show "fst (ramp_node s now node) = Returned"
    using assms(3) by (simp add: eq ramp_node_param_returns)
  show "has_target (snd (ramp_node s now node)) ''bitDepth'' (bitDepth s)"
    using assms(1,4) by (simp add: eq has_target_other ramp_node_param_target)
  show "has_target (snd (ramp_node s now node)) ''reduction'' (reduction s)"
    using assms(2) k2 by (simp add: eq has_target_other ramp_node_param_target)
  show "has_target (snd (ramp_node s now node)) ''mix'' (mix s)"
    using assms(3) k3 by (simp add: eq ramp_node_param_target)
qed

lemma ramp_node_rejected:
  assumes "\<not> (accepts (bitDepth s) \<and> accepts (reduction s) \<and> accepts (mix s))"
    and "node_parameters node ''bitDepth'' \<noteq> None"
    and "node_parameters node ''reduction'' \<noteq> None"
    and "node_parameters node ''mix'' \<noteq> None"
  shows "fst (ramp_node s now node) = Threw ParamTypeError"
proof (cases "accepts (bitDepth s)")
  case False
  with assms(2) show ?thesis
    by (simp add: ramp_node_def and_then_Threw ramp_node_param_throws)
next
  case bd: True
  let ?n1 = "snd (ramp_node_param ''bitDepth'' (bitDepth s) now node)"
  have k2: "node_parameters ?n1 ''reduction'' \<noteq> None"
    using assms(3) by (simp add: ramp_node_param_keys)
  show ?thesis
  proof (cases "accepts (reduction s)")
    case False
    with bd k2 show ?thesis
      by (simp add: ramp_node_def and_then_Returned and_then_Threw ramp_node_param_returns
          ramp_node_param_throws)
  next
    case red: True
    let ?n2 = "snd (ramp_node_param ''reduction'' (reduction s) now ?n1)"
    have k3: "node_parameters ?n2 ''mix'' \<noteq> None"
      using assms(4) by (simp add: ramp_node_param_keys)
    from assms(1) bd red have "\<not> accepts (mix s)" by simp
    with bd red k3 show ?thesis
      by (simp add: ramp_node_def and_then_Returned ramp_node_param_returns
          ramp_node_param_throws)
  qed
qed

lemma applyState_unfold:
  "applyState e =
     (case ctx e of
        None \<Rightarrow> (Returned, e)
      | Some c \<Rightarrow>
          (case bitcrusherNode e of
             None \<Rightarrow> (Returned, e)
           | Some node \<Rightarrow>
               (case masterGain e of
                  None \<Rightarrow> (Returned, e)
                | Some g \<Rightarrow>
                    (if accepts (masterVolume (state e))
                     then (fst (ramp_node (state e) (currentTime c) node),
                           e\<lparr>masterGain := Some (g\<lparr>gain := snd (ramp_to (masterVolume (state e))
                                                    (currentTime c) (gain g))\<rparr>),
                             bitcrusherNode := Some (snd (ramp_node (state e) (currentTime c) node))\<rparr>)
                     else (Threw ParamTypeError,
                           e\<lparr>masterGain := Some (g\<lparr>gain := snd (ramp_to (masterVolume (state e))
                                                    (currentTime c) (gain g))\<rparr>)\<rparr>)))))"
  by (simp add: applyState_def Let_def case_prod_beta ramp_to_returns ramp_to_throws
      split: option.splits)


lemma applyState_fields:
  "ctx (snd (applyState e)) = ctx e"
  "samples (snd (applyState e)) = samples e"
  "isInitialized (snd (applyState e)) = isInitialized e"
  "state (snd (applyState e)) = state e"
  "stateSubscribers (snd (applyState e)) = stateSubscribers e"
  "delivered (snd (applyState e)) = delivered e"
  "(masterGain (snd (applyState e)) = None) = (masterGain e = None)"
  "(bitcrusherNode (snd (applyState e)) = None) = (bitcrusherNode e = None)"
  by (simp_all add: applyState_unfold split: option.splits)

lemma applyState_no_graph:
  "ctx e = None \<or> masterGain e = None \<or> bitcrusherNode e = None \<Longrightarrow>
   applyState e = (Returned, e)"
  by (auto simp add: applyState_unfold split: option.splits)

lemma applyState_complete: "graph_complete (snd (applyState e)) = graph_complete e"
  by (simp add: graph_complete_def applyState_unfold ramp_node_keys_Some split: option.splits)

lemma applyState_accepted:
  assumes "graph_complete e" and "accepted_state (state e)"
  shows "fst (applyState e) = Returned"
    and "gain_ramp_target (snd (applyState e)) = Some (masterVolume (state e))"
    and "node_ramp_target (snd (applyState e)) ''bitDepth'' = Some (bitDepth (state e))"
    and "node_ramp_target (snd (applyState e)) ''reduction'' = Some (reduction (state e))"
    and "node_ramp_target (snd (applyState e)) ''mix'' = Some (mix (state e))"
proof -
  from assms(1) obtain c g node where f: "ctx e = Some c" "masterGain e = Some g"
    "bitcrusherNode e = Some node"
    and k: "node_parameters node ''bitDepth'' \<noteq> None" "node_parameters node ''reduction'' \<noteq> None"
      "node_parameters node ''mix'' \<noteq> None"
    by (auto simp: graph_complete_def split: option.splits)
  from assms(2) have a: "accepts (masterVolume (state e))" "accepts (bitDepth (state e))"
    "accepts (reduction (state e))" "accepts (mix (state e))"
    by (simp_all add: accepted_state_def)
  note rn = ramp_node_accepted [OF a(2,3,4) k, of "currentTime c"]
  show "fst (applyState e) = Returned"
    by (simp add: applyState_unfold f a rn)
  show "gain_ramp_target (snd (applyState e)) = Some (masterVolume (state e))"
    by (simp add: applyState_unfold f a gain_ramp_target_def ramp_target_ramp_to)
  show "node_ramp_target (snd (applyState e)) ''bitDepth'' = Some (bitDepth (state e))"
    using rn(2)
    by (simp add: applyState_unfold f a node_ramp_target_def has_target_def split: option.splits)
  show "node_ramp_target (snd (applyState e)) ''reduction'' = Some (reduction (state e))"
    using rn(3)
    by (simp add: applyState_unfold f a node_ramp_target_def has_target_def split: option.splits)
  show "node_ramp_target (snd (applyState e)) ''mix'' = Some (mix (state e))"
    using rn(4)
    by (simp add: applyState_unfold f a node_ramp_target_def has_target_def split: option.splits)
qed

lemma applyState_rejected:
  assumes "graph_complete e" and "\<not> accepted_state (state e)"
  shows "fst (applyState e) = Threw ParamTypeError"
proof -
  from assms(1) obtain c g node where f: "ctx e = Some c" "masterGain e = Some g"
    "bitcrusherNode e = Some node"
    and k: "node_parameters node ''bitDepth'' \<noteq> None" "node_parameters node ''reduction'' \<noteq> None"
      "node_parameters node ''mix'' \<noteq> None"
    by (auto simp: graph_complete_def split: option.splits)
  show ?thesis
  proof (cases "accepts (masterVolume (state e))")
    case False
    then show ?thesis by (simp add: applyState_unfold f)
  next
    case True
    with assms(2) have "\<not> (accepts (bitDepth (state e)) \<and> accepts (reduction (state e)) \<and>
        accepts (mix (state e)))"
      by (simp add: accepted_state_def)
    from ramp_node_rejected [OF this k] True show ?thesis
      by (simp add: applyState_unfold f)
  qed
qed


subsection \<open>setState and init, field by field\<close>

lemma setState_snd:
  "snd (setState e ns) =
     (if fst (applyState (e\<lparr>state := spread (state e) ns\<rparr>)) = Returned
      then notifySubscribers (snd (applyState (e\<lparr>state := spread (state e) ns\<rparr>)))
      else snd (applyState (e\<lparr>state := spread (state e) ns\<rparr>)))"
  by (cases "applyState (e\<lparr>state := spread (state e) ns\<rparr>)";
      cases "fst (applyState (e\<lparr>state := spread (state e) ns\<rparr>))")
    (simp_all add: setState_def)

lemma setState_fst: "fst (setState e ns) = fst (applyState (e\<lparr>state := spread (state e) ns\<rparr>))"
  by (cases "applyState (e\<lparr>state := spread (state e) ns\<rparr>)";
      cases "fst (applyState (e\<lparr>state := spread (state e) ns\<rparr>))")
    (simp_all add: setState_def)

lemma state_setState: "state (snd (setState e ns)) = spread (state e) ns"
  by (simp add: setState_snd notifySubscribers_def applyState_fields)

lemma isInitialized_setState: "isInitialized (snd (setState e ns)) = isInitialized e"
  by (simp add: setState_snd notifySubscribers_def applyState_fields)

lemma graph_complete_cong:
  assumes "(ctx e2 = None) = (ctx e = None)" and "masterGain e2 = masterGain e"
    and "bitcrusherNode e2 = bitcrusherNode e"
  shows "graph_complete e2 = graph_complete e"
  unfolding graph_complete_def assms ..

lemma graph_complete_notify: "graph_complete (notifySubscribers e) = graph_complete e"
  by (rule graph_complete_cong) (simp_all add: notifySubscribers_def)

lemma graph_complete_state: "graph_complete (e\<lparr>state := s\<rparr>) = graph_complete e"
  by (rule graph_complete_cong) simp_all

lemma graph_complete_setState: "graph_complete (snd (setState e ns)) = graph_complete e"
  by (simp add: setState_snd graph_complete_notify applyState_complete graph_complete_state)

lemma targets_notify:
  "gain_ramp_target (notifySubscribers e) = gain_ramp_target e"
  "node_ramp_target (notifySubscribers e) name = node_ramp_target e name"
  by (simp_all add: gain_ramp_target_def node_ramp_target_def notifySubscribers_def)

lemma graph_complete_wired: "graph_complete (wired h e)"
  by (simp add: graph_complete_def wired_def new_worklet_node_def)

lemma init_unfold:
  "init h e =
     (if isInitialized e then (Returned, resume e)
      else if \<not> context_starts h then (Threw ContextUnavailable, e)
      else if \<not> module_loads h then (Threw ModuleLoadFailed, e\<lparr>ctx := Some (new_context h)\<rparr>)
      else if \<not> node_constructs h
        then (Threw NodeConstructionFailed, e\<lparr>ctx := Some (new_context h)\<rparr>)
      else if \<not> accepts (masterVolume (state e))
        then (Threw ParamTypeError,
              e\<lparr>ctx := Some (new_context h), bitcrusherNode := Some new_worklet_node,
                masterGain := Some createGain\<rparr>)
      else if fst (applyState (wired h e)) = Returned
        then (Returned, (snd (applyState (wired h e)))\<lparr>isInitialized := True\<rparr>)
      else (fst (applyState (wired h e)), snd (applyState (wired h e))))"
  by (cases "applyState (wired h e)"; cases "fst (applyState (wired h e))")
    (simp_all add: init_def Let_def wired_def)

lemma init_stays_uninitialized:
  "\<not> isInitialized e \<Longrightarrow> fst (init h e) \<noteq> Returned \<Longrightarrow> \<not> isInitialized (snd (init h e))"
  by (simp add: init_unfold applyState_fields wired_def split: if_splits)

lemma init_accepted_returns:
  assumes "\<not> isInitialized e" and "context_starts h" "module_loads h" "node_constructs h"
    and "accepted_state (state e)"
  shows "init h e = (Returned, (snd (applyState (wired h e)))\<lparr>isInitialized := True\<rparr>)"
proof -
  have "accepted_state (state (wired h e))" using assms(5) by (simp add: wired_def)
  from applyState_accepted(1) [OF graph_complete_wired this]
  show ?thesis using assms by (simp add: init_unfold accepted_state_def)
qed


subsection \<open>The graph of a reachable engine\<close>

lemma targets_cong:
  assumes "masterGain e2 = masterGain e" and "bitcrusherNode e2 = bitcrusherNode e"
  shows "gain_ramp_target e2 = gain_ramp_target e"
    and "node_ramp_target e2 name = node_ramp_target e name"
  by (simp_all add: gain_ramp_target_def node_ramp_target_def assms)

lemma graph_inv_cong:
  assumes "isInitialized e2 = isInitialized e" and "(ctx e2 = None) = (ctx e = None)"
    and "masterGain e2 = masterGain e" and "bitcrusherNode e2 = bitcrusherNode e"
    and "state e2 = state e"
  shows "graph_inv e2 = graph_inv e"
  unfolding graph_inv_def assms(1,3,4,5) targets_cong [OF assms(3,4)]
    graph_complete_cong [OF assms(2,3,4)] ..

lemma complete_cong:
  assumes "isInitialized e2 = isInitialized e" and "(ctx e2 = None) = (ctx e = None)"
    and "masterGain e2 = masterGain e" and "bitcrusherNode e2 = bitcrusherNode e"
  shows "complete_if_initialized e2 = complete_if_initialized e"
  unfolding complete_if_initialized_def assms(1) graph_complete_cong [OF assms(2,3,4)] ..

lemma loadSample_fields:
  "isInitialized (snd (loadSample h e padIndex f)) = isInitialized e"
  "(ctx (snd (loadSample h e padIndex f)) = None) = (ctx e = None)"
  "masterGain (snd (loadSample h e padIndex f)) = masterGain e"
  "bitcrusherNode (snd (loadSample h e padIndex f)) = bitcrusherNode e"
  "state (snd (loadSample h e padIndex f)) = state e"
  by (simp_all add: loadSample_def split: option.splits)

lemma triggerPad_fields:
  "isInitialized (triggerPad e padIndex) = isInitialized e"
  "(ctx (triggerPad e padIndex) = None) = (ctx e = None)"
  "masterGain (triggerPad e padIndex) = masterGain e"
  "bitcrusherNode (triggerPad e padIndex) = bitcrusherNode e"
  "state (triggerPad e padIndex) = state e"
  by (simp_all add: triggerPad_def split: option.splits)

lemma resume_fields:
  "isInitialized (resume e) = isInitialized e"
  "(ctx (resume e) = None) = (ctx e = None)"
  "masterGain (resume e) = masterGain e"
  "bitcrusherNode (resume e) = bitcrusherNode e"
  "state (resume e) = state e"
  by (simp_all add: resume_def split: option.splits)

lemma host_suspends_fields:
  "isInitialized (host_suspends e) = isInitialized e"
  "(ctx (host_suspends e) = None) = (ctx e = None)"
  "masterGain (host_suspends e) = masterGain e"
  "bitcrusherNode (host_suspends e) = bitcrusherNode e"
  "state (host_suspends e) = state e"
  by (simp_all add: host_suspends_def split: option.splits)

lemma clock_advances_fields:
  "isInitialized (clock_advances t e) = isInitialized e"
  "(ctx (clock_advances t e) = None) = (ctx e = None)"
  "masterGain (clock_advances t e) = masterGain e"
  "bitcrusherNode (clock_advances t e) = bitcrusherNode e"
  "state (clock_advances t e) = state e"
  by (simp_all add: clock_advances_def split: option.splits)

lemma parameters_move_complete:
  "graph_complete (parameters_move gv nv e) = graph_complete e"
  by (auto simp: graph_complete_def parameters_move_def split: option.splits)

lemma parameters_move_targets:
  "gain_ramp_target (parameters_move gv nv e) = gain_ramp_target e"
  "node_ramp_target (parameters_move gv nv e) name = node_ramp_target e name"
  by (auto simp: gain_ramp_target_def node_ramp_target_def parameters_move_def
      split: option.splits)

lemma parameters_move_inv: "graph_inv (parameters_move gv nv e) = graph_inv e"
  by (simp add: graph_inv_def parameters_move_complete parameters_move_targets)
    (simp add: parameters_move_def)

lemma parameters_move_complete_if:
  "complete_if_initialized (parameters_move gv nv e) = complete_if_initialized e"
  by (simp add: complete_if_initialized_def parameters_move_complete)
    (simp add: parameters_move_def)

lemma init_complete:
  "complete_if_initialized e \<Longrightarrow> complete_if_initialized (snd (init h e))"
proof (cases "isInitialized e")
  case True
  assume "complete_if_initialized e"
  moreover have "complete_if_initialized (resume e) = complete_if_initialized e"
    by (rule complete_cong) (simp_all add: resume_fields)
  ultimately show ?thesis using True by (simp add: init_unfold)
next
  case False
  have "graph_complete ((snd (applyState (wired h e)))\<lparr>isInitialized := True\<rparr>) =
      graph_complete (snd (applyState (wired h e)))"
    by (rule graph_complete_cong) simp_all
  then have "graph_complete ((snd (applyState (wired h e)))\<lparr>isInitialized := True\<rparr>)"
    by (simp add: applyState_complete graph_complete_wired)
  with False show ?thesis
    by (simp add: init_unfold complete_if_initialized_def applyState_fields wired_def)
qed

lemma setState_complete:
  "complete_if_initialized (snd (setState e ns)) = complete_if_initialized e"
  by (simp add: complete_if_initialized_def isInitialized_setState graph_complete_setState)

lemma reachable_complete: "reachable_by ok e \<Longrightarrow> complete_if_initialized e"
proof (induction rule: reachable_by.induct)
  case reachable_new
  show ?case by (simp add: complete_if_initialized_def new_engine_def)
next
  case (reachable_init e h)
  then show ?case by (simp add: init_complete)
next
  case (reachable_loadSample e h padIndex f)
  have "complete_if_initialized (snd (loadSample h e padIndex f)) = complete_if_initialized e"
    by (rule complete_cong) (simp_all add: loadSample_fields)
  with reachable_loadSample show ?case by simp
next
  case (reachable_triggerPad e padIndex)
  have "complete_if_initialized (triggerPad e padIndex) = complete_if_initialized e"
    by (rule complete_cong) (simp_all add: triggerPad_fields)
  with reachable_triggerPad show ?case by simp
next
  case (reachable_setState e newState)
  then show ?case by (simp add: setState_complete)
next
  case (reachable_subscribe e callback)
  have "complete_if_initialized (subscribe e callback) = complete_if_initialized e"
    by (rule complete_cong) (simp_all add: subscribe_def)
  with reachable_subscribe show ?case by simp
next
  case (reachable_unsubscribe e callback)
  have "complete_if_initialized (unsubscribe e callback) = complete_if_initialized e"
    by (rule complete_cong) (simp_all add: unsubscribe_def)
  with reachable_unsubscribe show ?case by simp
next
  case (reachable_suspends e)
  have "complete_if_initialized (host_suspends e) = complete_if_initialized e"
    by (rule complete_cong) (simp_all add: host_suspends_fields)
  with reachable_suspends show ?case by simp
next
  case (reachable_clock e t)
  have "complete_if_initialized (clock_advances t e) = complete_if_initialized e"
    by (rule complete_cong) (simp_all add: clock_advances_fields)
  with reachable_clock show ?case by simp
next
  case (reachable_move e gv nv)
  then show ?case by (simp add: parameters_move_complete_if)
qed


lemma spread_accepted:
  "accepted_state s \<Longrightarrow> accepted_update ns \<Longrightarrow> accepted_state (spread s ns)"
  by (auto simp: accepted_state_def accepted_update_def accepted_opt_def spread_def
      split: option.splits)

lemma graph_inv_after_applyState:
  assumes "graph_complete e" and "accepted_state (state e)" and "isInitialized e"
  shows "graph_inv (snd (applyState e))"
  using applyState_accepted [OF assms(1,2)] assms
  by (simp add: graph_inv_def applyState_fields applyState_complete)

lemma graph_inv_notify: "graph_inv (notifySubscribers e) = graph_inv e"
  by (rule graph_inv_cong) (simp_all add: notifySubscribers_def)

lemma setState_inv:
  assumes "graph_inv e" and "accepted_update ns"
  shows "graph_inv (snd (setState e ns))"
proof -
  let ?e1 = "e\<lparr>state := spread (state e) ns\<rparr>"
  from assms have acc: "accepted_state (state ?e1)"
    by (simp add: graph_inv_def spread_accepted)
  show ?thesis
  proof (cases "isInitialized e")
    case True
    with assms(1) have "graph_complete ?e1"
      by (simp add: graph_inv_def graph_complete_state)
    from graph_inv_after_applyState [OF this acc] applyState_accepted(1) [OF this acc] True
    show ?thesis by (simp add: setState_snd graph_inv_notify)
  next
    case False
    with assms(1) have "masterGain ?e1 = None" by (simp add: graph_inv_def)
    then have "applyState ?e1 = (Returned, ?e1)" by (simp add: applyState_no_graph)
    moreover have "graph_inv ?e1" using assms(1) False acc by (simp add: graph_inv_def)
    ultimately show ?thesis by (simp add: setState_snd graph_inv_notify)
  qed
qed

lemma init_inv:
  assumes "graph_inv e"
  shows "graph_inv (snd (init h e))"
proof (cases "isInitialized e")
  case True
  have "graph_inv (resume e) = graph_inv e"
    by (rule graph_inv_cong) (simp_all add: resume_fields)
  with assms True show ?thesis by (simp add: init_unfold)
next
  case False
  from assms have acc: "accepted_state (state e)" by (simp add: graph_inv_def)
  show ?thesis
  proof (cases "context_starts h \<and> module_loads h \<and> node_constructs h")
    case False
    with assms \<open>\<not> isInitialized e\<close> show ?thesis
      by (auto simp: init_unfold graph_inv_def)
  next
    case True
    let ?w = "(wired h e)\<lparr>isInitialized := True\<rparr>"
    have c: "graph_complete ?w"
      using graph_complete_wired [of h e]
      by (simp add: graph_complete_cong [of ?w "wired h e"])
    have a: "accepted_state (state ?w)" using acc by (simp add: wired_def)
    have "(snd (applyState (wired h e)))\<lparr>isInitialized := True\<rparr> = snd (applyState ?w)"
      by (simp add: applyState_unfold wired_def)
    moreover have "graph_inv (snd (applyState ?w))"
      by (rule graph_inv_after_applyState [OF c a]) simp
    ultimately show ?thesis
      using True \<open>\<not> isInitialized e\<close> acc
      by (simp add: init_accepted_returns)
  qed
qed

lemma reachable_accepted_inv: "reachable_by accepted_update e \<Longrightarrow> graph_inv e"
proof (induction rule: reachable_by.induct)
  case reachable_new
  show ?case
    by (simp add: graph_inv_def new_engine_def accepted_state_def accepts_def float_bound_def)
next
  case (reachable_init e h)
  then show ?case by (simp add: init_inv)
next
  case (reachable_loadSample e h padIndex f)
  have "graph_inv (snd (loadSample h e padIndex f)) = graph_inv e"
    by (rule graph_inv_cong) (simp_all add: loadSample_fields)
  with reachable_loadSample show ?case by simp
next
  case (reachable_triggerPad e padIndex)
  have "graph_inv (triggerPad e padIndex) = graph_inv e"
    by (rule graph_inv_cong) (simp_all add: triggerPad_fields)
  with reachable_triggerPad show ?case by simp
next
  case (reachable_setState e newState)
  then show ?case by (simp add: setState_inv)
next
  case (reachable_subscribe e callback)
  have "graph_inv (subscribe e callback) = graph_inv e"
    by (rule graph_inv_cong) (simp_all add: subscribe_def)
  with reachable_subscribe show ?case by simp
next
  case (reachable_unsubscribe e callback)
  have "graph_inv (unsubscribe e callback) = graph_inv e"
    by (rule graph_inv_cong) (simp_all add: unsubscribe_def)
  with reachable_unsubscribe show ?case by simp
next
  case (reachable_suspends e)
  have "graph_inv (host_suspends e) = graph_inv e"
    by (rule graph_inv_cong) (simp_all add: host_suspends_fields)
  with reachable_suspends show ?case by simp
next
  case (reachable_clock e t)
  have "graph_inv (clock_advances t e) = graph_inv e"
    by (rule graph_inv_cong) (simp_all add: clock_advances_fields)
  with reachable_clock show ?case by simp
next
  case (reachable_move e gv nv)
  then show ?case by (simp add: parameters_move_inv)
qed


subsection \<open>The scenario engines\<close>

lemma accepts_small: "\<bar>v\<bar> \<le> 1000 \<Longrightarrow> accepts v"
  by (simp add: accepts_def float_bound_def)

lemma rejects_too_large: "\<not> accepts too_large"
  by (simp add: accepts_def float_bound_def too_large_def)

lemma accepted_new_state: "accepted_state (state new_engine)"
  by (simp add: new_engine_def accepted_state_def accepts_small)

lemma suspended_engine_eq:
  "init suspended_host new_engine =
     (Returned, (snd (applyState (wired suspended_host new_engine)))\<lparr>isInitialized := True\<rparr>)"
  by (rule init_accepted_returns)
    (simp_all add: accepted_new_state, simp_all add: new_engine_def suspended_host_def)

lemma suspended_engine_fields:
  "isInitialized suspended_engine"
  "ctx suspended_engine = Some \<lparr>ctx_state = Suspended, currentTime = 0, started_sources = []\<rparr>"
  "samples suspended_engine = Map.empty"
  "bitcrusherNode suspended_engine \<noteq> None"
  "state suspended_engine = state new_engine"
  by (simp_all add: suspended_engine_def suspended_engine_eq applyState_fields wired_def)
    (simp_all add: suspended_host_def new_engine_def)

lemma reachable_suspended_engine: "reachable_by ok suspended_engine"
  unfolding suspended_engine_def by (rule reachable_init [OF reachable_new])

lemma toy_decoder_kick: "decodeAudioData suspended_host (file_bytes kick) = Some [[1, 2]]"
  by (simp add: suspended_host_def kick_def toy_decoder_def)

lemma loaded_engine_eq:
  "loadSample suspended_host suspended_engine 0 kick =
     (Returned, suspended_engine\<lparr>samples := [0 \<mapsto> [[1, 2]]]\<rparr>)"
  by (simp add: loadSample_def suspended_engine_fields toy_decoder_kick)

lemma just_bitDepth_fields:
  "new_masterVolume (just_bitDepth v) = None" "new_bitDepth (just_bitDepth v) = Some v"
  "new_reduction (just_bitDepth v) = None" "new_mix (just_bitDepth v) = None"
  by (simp_all add: just_bitDepth_def)

lemma spread_just_bitDepth:
  "spread s (just_bitDepth v) =
     \<lparr>masterVolume = masterVolume s, bitDepth = v, reduction = reduction s, mix = mix s\<rparr>"
  by (simp add: spread_def just_bitDepth_fields)

lemma just_masterVolume_fields:
  "new_masterVolume (just_masterVolume v) = Some v" "new_bitDepth (just_masterVolume v) = None"
  "new_reduction (just_masterVolume v) = None" "new_mix (just_masterVolume v) = None"
  by (simp_all add: just_masterVolume_def)

lemma spread_just_masterVolume:
  "spread s (just_masterVolume v) =
     \<lparr>masterVolume = v, bitDepth = bitDepth s, reduction = reduction s, mix = mix s\<rparr>"
  by (simp add: spread_def just_masterVolume_fields)

lemma setState_new_engine:
  "setState new_engine ns = (Returned, new_engine\<lparr>state := spread (state new_engine) ns\<rparr>)"
  by (simp add: setState_def applyState_def notifySubscribers_def new_engine_def)

lemma stalled_init:
  "init suspended_host (snd (setState new_engine (just_masterVolume too_large))) =
     (Threw ParamTypeError,
      new_engine\<lparr>state := \<lparr>masterVolume = too_large, bitDepth = 12, reduction = 1, mix = 1\<rparr>,
        ctx := Some \<lparr>ctx_state = Suspended, currentTime = 0, started_sources = []\<rparr>,
        bitcrusherNode := Some new_worklet_node, masterGain := Some createGain\<rparr>)"
  by (simp add: setState_new_engine spread_just_masterVolume init_unfold rejects_too_large)
    (simp add: new_engine_def suspended_host_def)

lemma stalled_engine_fields:
  "\<not> isInitialized stalled_engine"
  "ctx stalled_engine = Some \<lparr>ctx_state = Suspended, currentTime = 0, started_sources = []\<rparr>"
  "bitcrusherNode stalled_engine = Some new_worklet_node"
  "masterGain stalled_engine = Some createGain"
  "samples stalled_engine = Map.empty"
  "state stalled_engine = \<lparr>masterVolume = too_large, bitDepth = 12, reduction = 1, mix = 1\<rparr>"
  by (simp_all add: stalled_engine_def stalled_init) (simp_all add: new_engine_def)

lemma reachable_stalled_engine: "reachable stalled_engine"
  unfolding stalled_engine_def reachable_def
  by (rule reachable_init [OF reachable_setState [OF reachable_new]]) simp

lemma reachable_stalled_loaded_engine: "reachable stalled_loaded_engine"
  using reachable_stalled_engine unfolding stalled_loaded_engine_def reachable_def
  by (rule reachable_loadSample)

lemma stalled_loaded_engine_eq:
  "stalled_loaded_engine = stalled_engine\<lparr>samples := [0 \<mapsto> [[1, 2]]]\<rparr>"
  by (simp add: stalled_loaded_engine_def loadSample_def stalled_engine_fields toy_decoder_kick)

subsection \<open>triggerPad\<close>

lemma uninitialized_no_node:
  "reachable_accepted e \<Longrightarrow> \<not> isInitialized e \<Longrightarrow> bitcrusherNode e = None"
  using reachable_accepted_inv [of e] by (simp add: graph_inv_def reachable_accepted_def)

text \<open>
  Claim C7 as stated fails on the code: the guard of \<open>triggerPad\<close> looks at the context
  and the bitcrusher node, not at \<open>isInitialized\<close>. When a master volume that the gain
  parameter rejects was stored before \<open>init\<close>, \<open>init\<close> throws at the assignment to
  \<^verbatim>\<open>gain.value\<close>, after the context and both nodes were assigned; the engine is not
  initialized, \<open>loadSample\<close> binds a sample to pad 0, and \<open>triggerPad\<close> creates and starts
  a source for it.
\<close>

theorem stalled_triggerPad_counterexample:
  "fst (init suspended_host (snd (setState new_engine (just_masterVolume too_large)))) =
     Threw ParamTypeError \<and>
   reachable stalled_loaded_engine \<and>
   \<not> isInitialized stalled_loaded_engine \<and>
   samples stalled_loaded_engine 0 = Some [[1, 2]] \<and>
   map_option started_sources (ctx stalled_loaded_engine) = Some [] \<and>
   map_option started_sources (ctx (triggerPad stalled_loaded_engine 0)) = Some [[[1, 2]]]"
  using reachable_stalled_loaded_engine
  by (simp add: stalled_init stalled_loaded_engine_eq stalled_engine_fields triggerPad_def)

text \<open>
  Claim C7, amended. For every pad slot, \<open>triggerPad\<close> on a slot with no bound sample,
  or on an engine that has no audio context or no bitcrusher node, returns the engine as
  it was: no buffer source is created and started (no voice), and the parameter state
  and the sample bindings are unchanged; \<open>triggerPad\<close> has no throwing statement, so it
  has no error outcome. As long as every parameter value passed to \<open>setState\<close> is one an
  \<^verbatim>\<open>AudioParam\<close> accepts, every engine that is not initialized is such an engine.
\<close>

theorem triggerPad_guarded:
  assumes "samples e padIndex = None \<or> ctx e = None \<or> bitcrusherNode e = None \<or>
           (reachable_accepted e \<and> \<not> isInitialized e)"
  shows "triggerPad e padIndex = e"
  using assms uninitialized_no_node [of e]
  by (auto simp: triggerPad_def split: option.splits)

lemma nodeless_engine:
  "bitcrusherNode (snd (loadSample suspended_host
      (snd (init (suspended_host\<lparr>node_constructs := False\<rparr>) new_engine)) 0 kick)) = None"
  "samples (snd (loadSample suspended_host
      (snd (init (suspended_host\<lparr>node_constructs := False\<rparr>) new_engine)) 0 kick)) 0 =
     Some [[1, 2]]"
  by (simp_all add: loadSample_fields init_unfold loadSample_def toy_decoder_kick)
    (simp_all add: new_engine_def suspended_host_def)

theorem triggerPad_guarded_witness:
  "samples suspended_engine 5 = None \<and> triggerPad suspended_engine 5 = suspended_engine \<and>
   reachable_accepted new_engine \<and> \<not> isInitialized new_engine \<and>
   triggerPad new_engine 0 = new_engine \<and>
   samples (snd (loadSample suspended_host
      (snd (init (suspended_host\<lparr>node_constructs := False\<rparr>) new_engine)) 0 kick)) 0 =
     Some [[1, 2]] \<and>
   bitcrusherNode (snd (loadSample suspended_host
      (snd (init (suspended_host\<lparr>node_constructs := False\<rparr>) new_engine)) 0 kick)) = None \<and>
   triggerPad (snd (loadSample suspended_host
      (snd (init (suspended_host\<lparr>node_constructs := False\<rparr>) new_engine)) 0 kick)) 0 =
     snd (loadSample suspended_host
      (snd (init (suspended_host\<lparr>node_constructs := False\<rparr>) new_engine)) 0 kick)"
proof -
  have s: "samples suspended_engine 5 = None" by (simp add: suspended_engine_fields)
  have r: "reachable_accepted new_engine"
    unfolding reachable_accepted_def by (rule reachable_new)
  have i: "\<not> isInitialized new_engine" by (simp add: new_engine_def)
  from triggerPad_guarded [of suspended_engine 5] triggerPad_guarded [of new_engine 0]
    triggerPad_guarded [of "snd (loadSample suspended_host
      (snd (init (suspended_host\<lparr>node_constructs := False\<rparr>) new_engine)) 0 kick)" 0]
    s r i nodeless_engine
  show ?thesis by simp
qed

subsection \<open>init, and the engine that is not ready\<close>

text \<open>
  Claim C5 as stated fails on the code: nothing in \<open>loadSample\<close> or \<open>triggerPad\<close> looks
  at the state of the context. On an initialized engine whose context is suspended,
  \<open>loadSample\<close> binds the decoded sample to the pad and \<open>triggerPad\<close> then creates and
  starts a source for it.
\<close>

theorem suspended_engine_counterexample:
  "phase suspended_engine = PhaseSuspended \<and>
   samples suspended_engine 0 = None \<and>
   loadSample suspended_host suspended_engine 0 kick = (Returned, loaded_engine) \<and>
   samples loaded_engine 0 = Some [[1, 2]] \<and>
   phase loaded_engine = PhaseSuspended \<and>
   map_option started_sources (ctx loaded_engine) = Some [] \<and>
   map_option started_sources (ctx (triggerPad loaded_engine 0)) = Some [[[1, 2]]]"
  using suspended_engine_fields(4)
  by (auto simp add: loaded_engine_def loaded_engine_eq phase_def suspended_engine_fields
      triggerPad_def split: option.splits)

text \<open>
  Claim C5, amended. If \<open>init\<close> fails because the audio subsystem cannot start (no
  context, the worklet module does not load, the node cannot be built), or for any other
  reason, the error is surfaced to the caller and the engine remains uninitialized. On
  an engine that has no audio context \<open>triggerPad\<close> and \<open>loadSample\<close> have no effect
  (\<open>loadSample\<close> throws and leaves the engine as it was); and as long as every parameter
  value passed to \<open>setState\<close> is one an \<^verbatim>\<open>AudioParam\<close> accepts, \<open>triggerPad\<close> has no
  effect on any engine that is not initialized.
\<close>

theorem failed_init_and_no_context:
  assumes "\<not> isInitialized e"
  shows "(fst (init h e) \<noteq> Returned \<longrightarrow> \<not> isInitialized (snd (init h e))) \<and>
         (\<not> (context_starts h \<and> module_loads h \<and> node_constructs h) \<longrightarrow>
            (\<exists>err. fst (init h e) = Threw err)) \<and>
         (ctx e = None \<longrightarrow>
            triggerPad e padIndex = e \<and> loadSample h e padIndex f = (Threw NotInitialized, e)) \<and>
         (reachable_accepted e \<longrightarrow> triggerPad e padIndex = e)"
proof -
  have a: "fst (init h e) \<noteq> Returned \<longrightarrow> \<not> isInitialized (snd (init h e))"
    using init_stays_uninitialized [OF assms] by blast
  have b: "\<not> (context_starts h \<and> module_loads h \<and> node_constructs h) \<longrightarrow>
            (\<exists>err. fst (init h e) = Threw err)"
    using assms by (auto simp: init_unfold)
  have c: "ctx e = None \<longrightarrow>
      triggerPad e padIndex = e \<and> loadSample h e padIndex f = (Threw NotInitialized, e)"
    by (simp add: loadSample_def triggerPad_def)
  have d: "reachable_accepted e \<longrightarrow> triggerPad e padIndex = e"
    using uninitialized_no_node [OF _ assms] by (auto simp: triggerPad_def split: option.splits)
  from a b c d show ?thesis by blast
qed

theorem failed_init_and_no_context_witness:
  "\<not> isInitialized new_engine \<and>
   \<not> module_loads (suspended_host\<lparr>module_loads := False\<rparr>) \<and>
   fst (init (suspended_host\<lparr>module_loads := False\<rparr>) new_engine) = Threw ModuleLoadFailed \<and>
   \<not> isInitialized (snd (init (suspended_host\<lparr>module_loads := False\<rparr>) new_engine)) \<and>
   ctx new_engine = None \<and> reachable_accepted new_engine \<and>
   triggerPad new_engine 0 = new_engine \<and>
   loadSample suspended_host new_engine 0 kick = (Threw NotInitialized, new_engine)"
proof -
  have i0: "\<not> isInitialized new_engine" and c0: "ctx new_engine = None"
    by (simp_all add: new_engine_def)
  have r: "reachable_accepted new_engine"
    unfolding reachable_accepted_def by (rule reachable_new)
  have f: "fst (init (suspended_host\<lparr>module_loads := False\<rparr>) new_engine) = Threw ModuleLoadFailed"
    by (simp add: init_unfold) (simp add: new_engine_def suspended_host_def)
  from failed_init_and_no_context [OF i0, of "suspended_host\<lparr>module_loads := False\<rparr>" 0 kick]
    failed_init_and_no_context [OF i0, of suspended_host 0 kick]
  show ?thesis using i0 c0 r f by simp
qed

subsection \<open>loadSample\<close>

text \<open>
  Claim C6 as stated fails on the code: on an engine without an audio context
  \<open>loadSample\<close> fails although the bytes are valid audio data, and the error is the
  guard's, not a decode error.
\<close>

theorem loadSample_counterexample:
  "decodeAudioData suspended_host (file_bytes kick) = Some [[1, 2]] \<and>
   loadSample suspended_host new_engine 0 kick = (Threw NotInitialized, new_engine)"
  by (simp add: toy_decoder_kick loadSample_def new_engine_def)

text \<open>
  Claim C6, amended. On an engine that has an audio context, \<open>loadSample\<close> fails with
  a decode error exactly when the bytes are not valid audio data (the decoder rejects
  them) and returns exactly when they are. On failure the engine, so the binding of
  that pad slot and of every other slot, is left untouched; on success the engine
  differs only in that the decoded sample is bound to the slot, replacing any binding it
  had; and after a second call for the same slot that succeeds, the binding is the
  second call's sample.
\<close>

theorem loadSample_binds:
  assumes "ctx e \<noteq> None"
  shows "(fst (loadSample h e padIndex f) = Threw DecodeFailed) = (decodeAudioData h (file_bytes f) = None) \<and>
         (fst (loadSample h e padIndex f) = Returned) = (decodeAudioData h (file_bytes f) \<noteq> None) \<and>
         (decodeAudioData h (file_bytes f) = None \<longrightarrow> snd (loadSample h e padIndex f) = e) \<and>
         (\<forall>b. decodeAudioData h (file_bytes f) = Some b \<longrightarrow>
              snd (loadSample h e padIndex f) = e\<lparr>samples := (samples e)(padIndex \<mapsto> b)\<rparr>) \<and>
         (\<forall>b2. decodeAudioData h2 (file_bytes f2) = Some b2 \<longrightarrow>
              samples (snd (loadSample h2 (snd (loadSample h e padIndex f)) padIndex f2)) padIndex = Some b2)"
  using assms by (auto simp: loadSample_def split: option.splits)

theorem loadSample_binds_witness:
  "ctx suspended_engine \<noteq> None \<and>
   fst (loadSample suspended_host suspended_engine 0 garbage) = Threw DecodeFailed \<and>
   snd (loadSample suspended_host suspended_engine 0 garbage) = suspended_engine \<and>
   fst (loadSample suspended_host suspended_engine 0 kick) = Returned \<and>
   snd (loadSample suspended_host suspended_engine 0 kick) =
     suspended_engine\<lparr>samples := (samples suspended_engine)(0 \<mapsto> [[1, 2]])\<rparr> \<and>
   samples (snd (loadSample suspended_host
       (snd (loadSample suspended_host suspended_engine 0 kick)) 0 snare)) 0 = Some [[3]]"
proof -
  have c: "ctx suspended_engine \<noteq> None" by (simp add: suspended_engine_fields)
  have g: "decodeAudioData suspended_host (file_bytes garbage) = None"
    by (simp add: suspended_host_def garbage_def toy_decoder_def)
  have s: "decodeAudioData suspended_host (file_bytes snare) = Some [[3]]"
    by (simp add: suspended_host_def snare_def toy_decoder_def)
  from loadSample_binds [OF c, of suspended_host 0 garbage suspended_host snare]
    loadSample_binds [OF c, of suspended_host 0 kick suspended_host snare]
  show ?thesis using c g s toy_decoder_kick
    by (simp add: loaded_engine_eq suspended_engine_fields)
qed


subsection \<open>setState\<close>

lemma spread_in_ranges:
  "in_ranges s \<Longrightarrow> partial_in_ranges ns \<Longrightarrow> in_ranges (spread s ns)"
  by (auto simp: in_ranges_def partial_in_ranges_def in_range_def spread_def split: option.splits)

lemma initialized_complete: "reachable e \<Longrightarrow> isInitialized e \<Longrightarrow> graph_complete e"
  using reachable_complete [of "\<lambda>newState. True" e]
  by (simp add: reachable_def complete_if_initialized_def)

lemma setState_targets:
  assumes "graph_complete e" and "accepted_state (spread (state e) ns)"
  shows "fst (setState e ns) = Returned"
    and "gain_ramp_target (snd (setState e ns)) = Some (masterVolume (spread (state e) ns))"
    and "node_ramp_target (snd (setState e ns)) ''bitDepth'' = Some (bitDepth (spread (state e) ns))"
    and "node_ramp_target (snd (setState e ns)) ''reduction'' =
           Some (reduction (spread (state e) ns))"
    and "node_ramp_target (snd (setState e ns)) ''mix'' = Some (mix (spread (state e) ns))"
proof -
  let ?e1 = "e\<lparr>state := spread (state e) ns\<rparr>"
  have c: "graph_complete ?e1" using assms(1) by (simp add: graph_complete_state)
  have a: "accepted_state (state ?e1)" using assms(2) by simp
  note r = applyState_accepted [OF c a]
  show "fst (setState e ns) = Returned" using r(1) by (simp add: setState_fst)
  show "gain_ramp_target (snd (setState e ns)) = Some (masterVolume (spread (state e) ns))"
    using r(1,2) by (simp add: setState_snd targets_notify)
  show "node_ramp_target (snd (setState e ns)) ''bitDepth'' = Some (bitDepth (spread (state e) ns))"
    using r(1,3) by (simp add: setState_snd targets_notify)
  show "node_ramp_target (snd (setState e ns)) ''reduction'' =
      Some (reduction (spread (state e) ns))"
    using r(1,4) by (simp add: setState_snd targets_notify)
  show "node_ramp_target (snd (setState e ns)) ''mix'' = Some (mix (spread (state e) ns))"
    using r(1,5) by (simp add: setState_snd targets_notify)
qed

lemma setState_throws:
  assumes "graph_complete e" and "\<not> accepted_state (spread (state e) ns)"
  shows "fst (setState e ns) = Threw ParamTypeError"
proof -
  let ?e1 = "e\<lparr>state := spread (state e) ns\<rparr>"
  have c: "graph_complete ?e1" using assms(1) by (simp add: graph_complete_state)
  have a: "\<not> accepted_state (state ?e1)" using assms(2) by simp
  from applyState_rejected [OF c a] show ?thesis by (simp add: setState_fst)
qed

text \<open>
  Claim C4 as stated fails on the code: \<open>setState\<close> never clamps. An update of
  \<open>bitDepth\<close> to 100 is stored as 100, outside \<open>[1, 16]\<close>, and on an initialized
  engine the \<open>bitDepth\<close> parameter of the node is ramped to 100.
\<close>

theorem setState_counterexample:
  "in_ranges (state new_engine) \<and>
   bitDepth (state (snd (setState new_engine (just_bitDepth 100)))) = 100 \<and>
   \<not> in_ranges (state (snd (setState new_engine (just_bitDepth 100)))) \<and>
   in_ranges (state suspended_engine) \<and>
   \<not> in_ranges (state (snd (setState suspended_engine (just_bitDepth 100)))) \<and>
   node_ramp_target (snd (setState suspended_engine (just_bitDepth 100))) ''bitDepth'' = Some 100"
proof -
  have c: "graph_complete suspended_engine"
    by (rule initialized_complete) (simp_all add: reachable_def reachable_suspended_engine
        suspended_engine_fields)
  have a: "accepted_state (spread (state suspended_engine) (just_bitDepth 100))"
    by (simp add: spread_just_bitDepth accepted_state_def accepts_small suspended_engine_fields
        new_engine_def)
  show ?thesis
    by (simp add: setState_targets [OF c a] state_setState spread_just_bitDepth
        in_ranges_def new_engine_def suspended_engine_fields)
qed

text \<open>
  Claim C4, amended. For every parameter update issued from the control context
  (\<open>masterVolume\<close>, \<open>bitDepth\<close>, \<open>reduction\<close>, \<open>mix\<close>) with any value, the engine stores
  the value as given, without clamping. An initialized engine then schedules the ramp of
  each parameter to the stored value when all four stored values are ones an
  \<^verbatim>\<open>AudioParam\<close> accepts, and \<open>setState\<close> throws when one of them is not. The stored
  state stays within the valid ranges (\<open>masterVolume\<close> in \<open>[0, 1]\<close>, \<open>bitDepth\<close> in
  \<open>[1, 16]\<close>, \<open>reduction\<close> in \<open>[1, 32]\<close>, \<open>mix\<close> in \<open>[0, 1]\<close>) when it was within them and
  the values of the update are.
\<close>

theorem setState_stores_as_given:
  assumes "reachable e"
  shows "state (snd (setState e ns)) = spread (state e) ns \<and>
         (in_ranges (state e) \<and> partial_in_ranges ns \<longrightarrow> in_ranges (state (snd (setState e ns)))) \<and>
         (isInitialized e \<and> accepted_state (spread (state e) ns) \<longrightarrow>
            fst (setState e ns) = Returned \<and>
            gain_ramp_target (snd (setState e ns)) = Some (masterVolume (state (snd (setState e ns)))) \<and>
            node_ramp_target (snd (setState e ns)) ''bitDepth'' =
              Some (bitDepth (state (snd (setState e ns)))) \<and>
            node_ramp_target (snd (setState e ns)) ''reduction'' =
              Some (reduction (state (snd (setState e ns)))) \<and>
            node_ramp_target (snd (setState e ns)) ''mix'' = Some (mix (state (snd (setState e ns))))) \<and>
         (isInitialized e \<and> \<not> accepted_state (spread (state e) ns) \<longrightarrow>
            fst (setState e ns) = Threw ParamTypeError)"
proof -
  have a: "state (snd (setState e ns)) = spread (state e) ns" by (rule state_setState)
  have b: "in_ranges (state e) \<and> partial_in_ranges ns \<longrightarrow> in_ranges (state (snd (setState e ns)))"
    by (simp add: state_setState spread_in_ranges)
  have c: "fst (setState e ns) = Returned \<and>
      gain_ramp_target (snd (setState e ns)) = Some (masterVolume (state (snd (setState e ns)))) \<and>
      node_ramp_target (snd (setState e ns)) ''bitDepth'' =
        Some (bitDepth (state (snd (setState e ns)))) \<and>
      node_ramp_target (snd (setState e ns)) ''reduction'' =
        Some (reduction (state (snd (setState e ns)))) \<and>
      node_ramp_target (snd (setState e ns)) ''mix'' = Some (mix (state (snd (setState e ns))))"
    if "isInitialized e" "accepted_state (spread (state e) ns)"
    using setState_targets [OF initialized_complete [OF assms that(1)] that(2)]
    by (simp add: state_setState)
  have d: "fst (setState e ns) = Threw ParamTypeError"
    if "isInitialized e" "\<not> accepted_state (spread (state e) ns)"
    using setState_throws [OF initialized_complete [OF assms that(1)] that(2)] .
  from a b c d show ?thesis by blast
qed

theorem setState_stores_as_given_witness:
  "reachable suspended_engine \<and> in_ranges (state suspended_engine) \<and>
   partial_in_ranges (just_bitDepth 8) \<and> isInitialized suspended_engine \<and>
   accepted_state (spread (state suspended_engine) (just_bitDepth 8)) \<and>
   fst (setState suspended_engine (just_bitDepth 8)) = Returned \<and>
   bitDepth (state (snd (setState suspended_engine (just_bitDepth 8)))) = 8 \<and>
   in_ranges (state (snd (setState suspended_engine (just_bitDepth 8)))) \<and>
   gain_ramp_target (snd (setState suspended_engine (just_bitDepth 8))) = Some (4 / 5) \<and>
   node_ramp_target (snd (setState suspended_engine (just_bitDepth 8))) ''bitDepth'' = Some 8 \<and>
   \<not> accepted_state (spread (state suspended_engine) (just_bitDepth too_large)) \<and>
   fst (setState suspended_engine (just_bitDepth too_large)) = Threw ParamTypeError \<and>
   bitDepth (state (snd (setState suspended_engine (just_bitDepth too_large)))) = too_large"
proof -
  have r: "reachable suspended_engine"
    by (simp add: reachable_def reachable_suspended_engine)
  have a: "in_ranges (state suspended_engine)"
    by (simp add: suspended_engine_fields new_engine_def in_ranges_def)
  have b: "partial_in_ranges (just_bitDepth 8)"
    by (simp add: partial_in_ranges_def just_bitDepth_def in_range_def)
  have c: "accepted_state (spread (state suspended_engine) (just_bitDepth 8))"
    by (simp add: spread_just_bitDepth accepted_state_def accepts_small suspended_engine_fields
        new_engine_def)
  have d: "\<not> accepted_state (spread (state suspended_engine) (just_bitDepth too_large))"
    by (simp add: spread_just_bitDepth accepted_state_def rejects_too_large)
  from setState_stores_as_given [OF r, of "just_bitDepth 8"]
    setState_stores_as_given [OF r, of "just_bitDepth too_large"] a b c d r
  show ?thesis
    by (simp add: suspended_engine_fields spread_just_bitDepth new_engine_def in_ranges_def)
qed




end
